theory Spec2Isabelle
  imports Main "HOL-Library.Sublist"
begin

section \<open>Strings\<close>

text \<open>
  Python \<open>str\<close> values are modelled as \<open>string\<close>, a list of 8-bit characters read as the
  code points below 256. \<open>s.startswith(p)\<close> is \<open>prefix p s\<close>.
\<close>

text \<open>\<open>sub in s\<close> for strings: \<open>sub\<close> occurs as a contiguous block of \<open>s\<close>.\<close>

fun contains :: "string \<Rightarrow> string \<Rightarrow> bool" where
  "contains sub [] = (sub = [])"
| "contains sub (c # cs) = (prefix sub (c # cs) \<or> contains sub cs)"

text \<open>\<open>str.isspace\<close> on one character, for code points below 256.\<close>

definition isspace :: "char \<Rightarrow> bool" where
  "isspace c = (let n = of_char c :: nat in
     (9 \<le> n \<and> n \<le> 13) \<or> (28 \<le> n \<and> n \<le> 32) \<or> n = 133 \<or> n = 160)"

text \<open>\<open>s.strip()\<close>: leading and trailing whitespace removed.\<close>

definition strip :: "string \<Rightarrow> string" where
  "strip s = rev (dropWhile isspace (rev (dropWhile isspace s)))"

text \<open>The maximal runs of non-whitespace characters of a string, in order (the regular
  expression \<open>\S+\<close> with \<open>findall\<close>).\<close>

fun tokens_acc :: "string \<Rightarrow> string \<Rightarrow> string list" where
  "tokens_acc cur [] = (if cur = [] then [] else [cur])"
| "tokens_acc cur (c # cs) =
     (if isspace c then (if cur = [] then tokens_acc [] cs else cur # tokens_acc [] cs)
      else tokens_acc (cur @ [c]) cs)"

definition tokens :: "string \<Rightarrow> string list" where
  "tokens s = tokens_acc [] s"

text \<open>\<open>sep.join(xs)\<close>.\<close>

fun join :: "string \<Rightarrow> string list \<Rightarrow> string" where
  "join sep [] = []"
| "join sep [x] = x"
| "join sep (x # y # ys) = x @ sep @ join sep (y # ys)"

text \<open>\<open>c.lower()\<close> on an ASCII letter; the other characters that matter here are their own
  lower case.\<close>

definition lower_char :: "char \<Rightarrow> char" where
  "lower_char c = (let n = of_char c :: nat in if 65 \<le> n \<and> n \<le> 90 then char_of (n + 32) else c)"

text \<open>\<open>a < b\<close> on strings: code point by code point, a proper prefix first.\<close>

fun str_less :: "string \<Rightarrow> string \<Rightarrow> bool" where
  "str_less [] [] = False"
| "str_less [] (y # ys) = True"
| "str_less (x # xs) [] = False"
| "str_less (x # xs) (y # ys) = ((of_char x :: nat) < of_char y \<or> (x = y \<and> str_less xs ys))"

section \<open>Exceptions\<close>

text \<open>The exceptions that the modelled code can meet, and the sequencing of two steps of which
  the first may raise.\<close>

datatype exn = ValueError | KeyError | AttributeError

definition and_then :: "exn + 'a \<Rightarrow> ('a \<Rightarrow> exn + 'b) \<Rightarrow> exn + 'b" where
  "and_then m f = (case m of Inl e \<Rightarrow> Inl e | Inr x \<Rightarrow> f x)"

section \<open>The parse tree\<close>

text \<open>
  The tree that \<open>BeautifulSoup(text, 'html.parser')\<close> builds: an element carries its tag name,
  the items of its attribute dictionary in insertion order (the keys are distinct) and its
  children; a text node carries its characters; a comment, a CDATA section, a processing
  instruction, a declaration and a document type are strings of a kind of their own. The
  document itself is the element named \<open>[document]\<close>.
\<close>

datatype kind = Comment | CData | ProcessingInstruction | Declaration | Doctype

datatype node =
    Tag string "(string \<times> string) list" "node list"
  | NavigableString string
  | PreformattedString kind string

fun tag_name :: "node \<Rightarrow> string option" where
  "tag_name (Tag n a cs) = Some n"
| "tag_name (NavigableString s) = None"
| "tag_name (PreformattedString k s) = None"

text \<open>\<open>tag.get(key)\<close>.\<close>

fun get_attr :: "node \<Rightarrow> string \<Rightarrow> string option" where
  "get_attr (Tag n a cs) k = map_of a k"
| "get_attr (NavigableString s) k = None"
| "get_attr (PreformattedString kd s) k = None"

text \<open>The parser splits the \<open>class\<close> attribute at whitespace into a list of class names.\<close>

definition classes :: "node \<Rightarrow> string list option" where
  "classes t = map_option tokens (get_attr t ''class'')"

text \<open>All nodes below a node in document order (\<open>tag.descendants\<close>).\<close>

fun descendants :: "node \<Rightarrow> node list" where
  "descendants (Tag n a cs) = concat (map (\<lambda>c. c # descendants c) cs)"
| "descendants (NavigableString s) = []"
| "descendants (PreformattedString k s) = []"

text \<open>\<open>tag.find_all(...)\<close> and \<open>tag.find(...)\<close> for a match given as a predicate on nodes.\<close>

definition find_all :: "(node \<Rightarrow> bool) \<Rightarrow> node \<Rightarrow> node list" where
  "find_all p t = filter p (descendants t)"

definition find_first :: "(node \<Rightarrow> bool) \<Rightarrow> node \<Rightarrow> node option" where
  "find_first p t = (case find_all p t of [] \<Rightarrow> None | x # _ \<Rightarrow> Some x)"

text \<open>A tag name given as a string, or as a list of strings, matches an element of that
  name.\<close>

definition is_tag :: "string \<Rightarrow> node \<Rightarrow> bool" where
  "is_tag nm t = (tag_name t = Some nm)"

definition is_tag_in :: "string list \<Rightarrow> node \<Rightarrow> bool" where
  "is_tag_in nms t = (case tag_name t of None \<Rightarrow> False | Some n \<Rightarrow> n \<in> set nms)"

text \<open>
  \<open>{'class': wanted}\<close> with a list of strings: an element matches when one of its class
  names, or all of them joined by single spaces, equals one of the wanted strings; an element
  without the attribute does not match.
\<close>

definition class_in :: "string list \<Rightarrow> node \<Rightarrow> bool" where
  "class_in wanted t = (case classes t of None \<Rightarrow> False
     | Some cs \<Rightarrow> list_ex (\<lambda>w. w \<in> set cs \<or> join '' '' cs = w) wanted)"

text \<open>\<open>class_=f\<close> with a function: \<open>f\<close> is tried on every class name, then on all of
  them joined; an element without the attribute is tried with \<open>None\<close>.\<close>

definition class_where :: "(string option \<Rightarrow> bool) \<Rightarrow> node \<Rightarrow> bool" where
  "class_where f t = (case tag_name t of None \<Rightarrow> False | Some n \<Rightarrow>
     (case classes t of None \<Rightarrow> f None
      | Some cs \<Rightarrow> list_ex (\<lambda>c. f (Some c)) cs \<or> f (Some (join '' '' cs))))"

text \<open>\<open>tag.text\<close>: the text nodes and CDATA sections below the element, concatenated.\<close>

fun text_of :: "node \<Rightarrow> string" where
  "text_of (Tag n a cs) = concat (map text_of cs)"
| "text_of (NavigableString s) = s"
| "text_of (PreformattedString k s) = (if k = CData then s else [])"

text \<open>
  Every node below a node, in document order, paired with its nearest enclosing \<open>div\<close>
  (what \<open>find_parent('div')\<close> returns for it). The first argument is the nearest \<open>div\<close>
  at or above the node whose children are listed.
\<close>

fun with_div :: "node option \<Rightarrow> node \<Rightarrow> (node \<times> node option) list" where
  "with_div d (Tag n a cs) =
     concat (map (\<lambda>c. (c, if n = ''div'' then Some (Tag n a cs) else d)
                        # with_div (if n = ''div'' then Some (Tag n a cs) else d) c) cs)"
| "with_div d (NavigableString s) = []"
| "with_div d (PreformattedString k s) = []"

text \<open>
  \<open>for x in tag.find_all(p): x.decompose()\<close>: every element below the tag that matches is
  removed together with everything below it.
\<close>

fun prune :: "(node \<Rightarrow> bool) \<Rightarrow> node \<Rightarrow> node" where
  "prune p (Tag n a cs) = Tag n a (map (prune p) (filter (\<lambda>c. \<not> p c) cs))"
| "prune p (NavigableString s) = NavigableString s"
| "prune p (PreformattedString k s) = PreformattedString k s"

subsection \<open>Serialisation\<close>

text \<open>
  \<open>str(tag)\<close>, which is \<open>tag.decode()\<close> with the formatter \<open>minimal\<close> and the output
  encoding \<open>utf-8\<close>. In a text node \<open>&\<close>, \<open><\<close> and \<open>>\<close> are written as entities,
  except directly below \<open>script\<close> and \<open>style\<close>; the other kinds of string are written as
  they are between their delimiters.
\<close>

fun substitute_xml :: "string \<Rightarrow> string" where
  "substitute_xml [] = []"
| "substitute_xml (c # cs) =
     (if c = CHR ''&'' then ''&amp;'' else if c = CHR ''<'' then ''&lt;''
      else if c = CHR ''>'' then ''&gt;'' else [c]) @ substitute_xml cs"

definition cdata_containing_tags :: "string list" where
  "cdata_containing_tags = [''script'', ''style'']"

fun PREFIX :: "kind \<Rightarrow> string" where
  "PREFIX Comment = ''<!--''"
| "PREFIX CData = ''<![CDATA[''"
| "PREFIX ProcessingInstruction = ''<?''"
| "PREFIX Declaration = ''<?''"
| "PREFIX Doctype = ''<!DOCTYPE ''"

fun SUFFIX :: "kind \<Rightarrow> string" where
  "SUFFIX Comment = ''-->''"
| "SUFFIX CData = '']]>''"
| "SUFFIX ProcessingInstruction = ''>''"
| "SUFFIX Declaration = ''?>''"
| "SUFFIX Doctype = ''>'' @ [CHR 0x0A]"

text \<open>
  The attributes are written sorted (\<open>sorted(tag.attrs.items())\<close>; with distinct keys this is
  the order of the keys).
\<close>

fun insort_attr :: "string \<times> string \<Rightarrow> (string \<times> string) list \<Rightarrow> (string \<times> string) list" where
  "insort_attr kv [] = [kv]"
| "insort_attr kv (x # xs) =
     (if str_less (fst x) (fst kv) then x # insort_attr kv xs else kv # x # xs)"

definition sorted_attrs :: "(string \<times> string) list \<Rightarrow> (string \<times> string) list" where
  "sorted_attrs a = foldr insort_attr a []"

text \<open>
  The attributes whose value the tree builder holds as a list of the whitespace-separated
  words (\<open>cdata_list_attributes\<close> of the HTML tree builders), written with single spaces
  between the words.
\<close>

definition cdata_list_attributes :: "(string \<times> string list) list" where
  "cdata_list_attributes =
     [(''*'', [''class'', ''accesskey'', ''dropzone'']),
      (''a'', [''rel'', ''rev'']),
      (''link'', [''rel'', ''rev'']),
      (''td'', [''headers'']),
      (''th'', [''headers'']),
      (''form'', [''accept-charset'']),
      (''object'', [''archive'']),
      (''area'', [''rel'']),
      (''icon'', [''sizes'']),
      (''iframe'', [''sandbox'']),
      (''output'', [''for''])]"

definition is_cdata_list :: "string \<Rightarrow> string \<Rightarrow> bool" where
  "is_cdata_list name attr =
     ((case map_of cdata_list_attributes ''*'' of None \<Rightarrow> False | Some universal \<Rightarrow> attr \<in> set universal)
      \<or> (case map_of cdata_list_attributes (map lower_char name) of
            None \<Rightarrow> False | Some tag_specific \<Rightarrow> attr \<in> set tag_specific))"

text \<open>
  The declared encoding of a \<open>meta\<close> element is replaced by the output encoding. For the
  attribute \<open>charset\<close> the value becomes \<open>utf-8\<close>; for \<open>content\<close>, when the element has
  \<open>http-equiv\<close> and no \<open>charset\<close>, every match of
  \<open>((^|;)\s*charset=)([^;]*)\<close> (multi-line) is replaced by its first group followed by
  \<open>utf-8\<close>. \<open>charset_here\<close> matches \<open>\s*charset=[^;]*\<close> at the head of a string and
  returns the text up to the equals sign and the text behind the match; \<open>charset_match\<close> takes
  a flag for the start of a line. Behind a match the search goes on at a semicolon or at the end
  of the string, where the start of a line plays no role.
\<close>

definition charset_here :: "string \<Rightarrow> (string \<times> string) option" where
  "charset_here s =
     (let r = dropWhile isspace s in
      if prefix ''charset='' r
      then Some (takeWhile isspace s @ ''charset='', dropWhile (\<lambda>c. c \<noteq> CHR '';'') (drop 8 r))
      else None)"

definition charset_match :: "bool \<Rightarrow> string \<Rightarrow> (string \<times> string) option" where
  "charset_match bol s =
     (case (if bol then charset_here s else None) of
        Some m \<Rightarrow> Some m
      | None \<Rightarrow>
          (case s of
             [] \<Rightarrow> None
           | c # cs \<Rightarrow>
               if c = CHR '';''
               then (case charset_here cs of None \<Rightarrow> None | Some (g, rest) \<Rightarrow> Some (c # g, rest))
               else None))"

function charset_sub :: "bool \<Rightarrow> string \<Rightarrow> string" where
  "charset_sub bol [] = []"
| "charset_sub bol (c # cs) =
     (case charset_match bol (c # cs) of
        Some (g, rest) \<Rightarrow> g @ ''utf-8'' @ charset_sub False rest
      | None \<Rightarrow> c # charset_sub (c = CHR 0x0A) cs)"
  by pat_completeness auto

termination charset_sub
proof -
  have here: "length rest < length s"
    if a: "charset_here s = Some (g, rest)" for s g rest
  proof -
    define r where "r = dropWhile isspace s"
    from a have p: "prefix ''charset='' r"
      and rest: "rest = dropWhile (\<lambda>c. c \<noteq> CHR '';'') (drop 8 r)"
      by (auto simp: charset_here_def r_def Let_def split: if_splits)
    from p have "8 \<le> length r" by (auto simp: prefix_def)
    moreover have "length rest \<le> length (drop 8 r)"
      unfolding rest by (rule length_dropWhile_le)
    moreover have "length r \<le> length s"
      unfolding r_def by (rule length_dropWhile_le)
    ultimately show ?thesis by simp
  qed
  have m: "length rest < length s"
    if "charset_match bol s = Some (g, rest)" for bol s g rest
    using that
    by (auto simp: charset_match_def split: if_splits option.splits list.splits dest!: here)
  show ?thesis
    by (relation "measure (\<lambda>(bol, s). length s)") (auto dest: m)
qed

definition output_value :: "string \<Rightarrow> (string \<times> string) list \<Rightarrow> string \<times> string \<Rightarrow> string" where
  "output_value n a kv = (case kv of (k, v) \<Rightarrow>
     if is_cdata_list n k then join '' '' (tokens v)
     else if n = ''meta'' \<and> k = ''charset'' then ''utf-8''
     else if n = ''meta'' \<and> k = ''content'' \<and> map_of a ''charset'' = None
             \<and> map_of a ''http-equiv'' \<noteq> None
     then charset_sub True v
     else v)"

text \<open>A value is quoted with double quotes, or with single quotes when it has a double quote
  and no single quote; when it has both, the double quotes are written as entities.\<close>

fun quot_escape :: "string \<Rightarrow> string" where
  "quot_escape [] = []"
| "quot_escape (c # cs) = (if c = CHR 0x22 then ''&quot;'' else [c]) @ quot_escape cs"

definition quoted_attribute_value :: "string \<Rightarrow> string" where
  "quoted_attribute_value v =
     (if CHR 0x22 \<in> set v
      then (if CHR 0x27 \<in> set v then [CHR 0x22] @ quot_escape v @ [CHR 0x22]
            else [CHR 0x27] @ v @ [CHR 0x27])
      else [CHR 0x22] @ v @ [CHR 0x22])"

definition attr_markup :: "string \<Rightarrow> (string \<times> string) list \<Rightarrow> string \<times> string \<Rightarrow> string" where
  "attr_markup n a kv =
     '' '' @ fst kv @ ''='' @ quoted_attribute_value (substitute_xml (output_value n a kv))"

text \<open>An element without children whose name is a void element is written \<open><name/>\<close>; the
  document element contributes only its children.\<close>

definition empty_element_tags :: "string list" where
  "empty_element_tags = [''area'', ''base'', ''br'', ''col'', ''embed'', ''hr'', ''img'',
     ''input'', ''keygen'', ''link'', ''menuitem'', ''meta'', ''param'', ''source'', ''track'',
     ''wbr'', ''basefont'', ''bgsound'', ''command'', ''frame'', ''image'', ''isindex'',
     ''nextid'', ''spacer'']"

text \<open>\<open>decode\<close> takes the name of the enclosing element.\<close>

fun decode :: "string \<Rightarrow> node \<Rightarrow> string" where
  "decode parent (NavigableString s) =
     (if parent \<in> set cdata_containing_tags then s else substitute_xml s)"
| "decode parent (PreformattedString k s) = PREFIX k @ s @ SUFFIX k"
| "decode parent (Tag n a cs) =
     (if n = ''[document]'' then concat (map (decode n) cs)
      else if cs = [] \<and> n \<in> set empty_element_tags
      then ''<'' @ n @ concat (map (attr_markup n a) (sorted_attrs a)) @ ''/>''
      else ''<'' @ n @ concat (map (attr_markup n a) (sorted_attrs a)) @ ''>''
           @ concat (map (decode n) cs) @ ''</'' @ n @ ''>'')"

text \<open>\<open>str(x)\<close> for an element or the document \<open>x\<close>.\<close>

definition markup :: "node \<Rightarrow> string" where
  "markup t = decode [] t"

section \<open>The Webdoc extractors (\<open>extractors/webdoc.py\<close>)\<close>

text \<open>\<open>is_webdoc_generated(soup)\<close>. The anchors whose \<open>href\<close> names the generator are
  tried first, each with its nearest enclosing \<open>div\<close>; then the first \<open>footer\<close> of
  class \<open>content-size\<close>.\<close>

definition webdoc_links :: "node \<Rightarrow> (node \<times> node option) list" where
  "webdoc_links soup = filter (\<lambda>(x, d). is_tag ''a'' x \<and>
       (case get_attr x ''href'' of None \<Rightarrow> False
        | Some href \<Rightarrow> href \<noteq> [] \<and> contains ''webdoc-js/webdoc'' href))
     (with_div None soup)"

definition is_webdoc_generated :: "node \<Rightarrow> bool" where
  "is_webdoc_generated soup =
     (if list_ex (\<lambda>(link, footer_div). contains ''Webdoc'' (text_of link) \<and>
            (case footer_div of None \<Rightarrow> False
             | Some d \<Rightarrow> contains ''Documentation generated by'' (text_of d)))
          (webdoc_links soup)
      then True
      else (case find_first (\<lambda>x. is_tag ''footer'' x \<and> class_in [''content-size''] x) soup of
              None \<Rightarrow> False
            | Some footer \<Rightarrow>
                if contains ''Webdoc'' (text_of footer)
                   \<and> contains ''Documentation generated by'' (text_of footer)
                then True else False))"

text \<open>\<open>extract_navigation_links(soup)\<close>. \<open>anchor_hrefs\<close> is the loop over
  \<open>find_all('a', href=True)\<close> with its test on each \<open>href\<close>; \<open>collect_links\<close> is the
  list \<open>links\<close> before duplicates are removed; \<open>unique_links\<close> is the last loop, with
  the set \<open>seen\<close> as its first argument.\<close>

definition anchor_hrefs :: "node \<Rightarrow> string list" where
  "anchor_hrefs t =
     concat (map (\<lambda>link. case get_attr link ''href'' of None \<Rightarrow> []
                   | Some href \<Rightarrow>
                       if href \<noteq> [] \<and> \<not> prefix ''#'' href \<and> \<not> prefix ''javascript:'' href
                       then [href] else [])
               (find_all (\<lambda>x. is_tag ''a'' x \<and> get_attr x ''href'' \<noteq> None) t))"

definition find_navigation :: "node \<Rightarrow> node option" where
  "find_navigation soup =
     (case find_first (is_tag ''nav'') soup of
        Some n \<Rightarrow> Some n
      | None \<Rightarrow> find_first (\<lambda>x. is_tag ''div'' x \<and> class_in [''navigation''] x) soup)"

definition find_sidebar :: "node \<Rightarrow> node option" where
  "find_sidebar soup =
     find_first (\<lambda>x. is_tag ''div'' x \<and> class_in [''sidebar'', ''menu'', ''side-nav''] x) soup"

definition collect_links :: "node \<Rightarrow> string list" where
  "collect_links soup =
     (let links = (case find_navigation soup of None \<Rightarrow> [] | Some navigation \<Rightarrow> anchor_hrefs navigation)
      in if links = []
         then (case find_sidebar soup of None \<Rightarrow> links | Some sidebar \<Rightarrow> links @ anchor_hrefs sidebar)
         else links)"

fun unique_links :: "string list \<Rightarrow> string list \<Rightarrow> string list" where
  "unique_links seen [] = []"
| "unique_links seen (link # links) =
     (if link \<in> set seen then unique_links seen links
      else link # unique_links (link # seen) links)"

definition extract_navigation_links :: "node \<Rightarrow> string list" where
  "extract_navigation_links soup = unique_links [] (collect_links soup)"

text \<open>
  \<open>extract_main_content(soup)\<close>. The only selector is \<open>div.main\<close>. The variables
  \<open>main_content\<close> and \<open>body\<close> hold an element or \<open>None\<close>; an element is true and
  \<open>None\<close> is false in a test, a method called on \<open>None\<close> raises \<open>AttributeError\<close>,
  and \<open>str(None)\<close> is the text \<open>None\<close>. \<open>decompose_all p target\<close> is the loop
  \<open>for x in target.find_all(p): x.decompose()\<close>.
\<close>

definition boilerplate_class :: "string option \<Rightarrow> bool" where
  "boilerplate_class c = (case c of None \<Rightarrow> False
     | Some s \<Rightarrow> s \<noteq> [] \<and> (contains ''sidebar'' s \<or> contains ''menu'' s \<or> contains ''nav'' s))"

definition decompose_all :: "(node \<Rightarrow> bool) \<Rightarrow> node option \<Rightarrow> exn + node option" where
  "decompose_all p target =
     (case target of None \<Rightarrow> Inl AttributeError | Some t \<Rightarrow> Inr (Some (prune p t)))"

definition str_of :: "node option \<Rightarrow> string" where
  "str_of x = (case x of None \<Rightarrow> ''None'' | Some t \<Rightarrow> markup t)"

definition extract_main_content :: "node \<Rightarrow> exn + string" where
  "extract_main_content soup =
     (let main_content = find_first (\<lambda>x. is_tag ''div'' x \<and> class_in [''main''] x) soup in
      and_then
        (if main_content = None
         then (let body = find_first (is_tag ''body'') soup in
               if body \<noteq> None
               then and_then (decompose_all (is_tag_in [''header'', ''footer'', ''nav'']) body)
                      (decompose_all (class_where boilerplate_class))
               else Inr main_content)
         else Inr main_content)
        (\<lambda>main_content.
           if main_content \<noteq> None
           then and_then (decompose_all (is_tag ''script'') main_content) (\<lambda>main_content.
                and_then (decompose_all (is_tag ''style'') main_content) (\<lambda>main_content.
                and_then (decompose_all (is_tag ''footer'') main_content) (\<lambda>main_content.
                Inr (strip (str_of main_content)))))
           else Inr (strip (str_of (Some soup)))))"

section \<open>The registry (\<open>extractors/__init__.py\<close>)\<close>

record extractor =
  detector :: "node \<Rightarrow> bool"
  content_extractor :: "node \<Rightarrow> exn + string"
  link_extractor :: "node \<Rightarrow> string list"

definition EXTRACTORS :: "(string \<times> extractor) list" where
  "EXTRACTORS = [(''webdoc'', \<lparr>detector = is_webdoc_generated,
      content_extractor = extract_main_content,
      link_extractor = extract_navigation_links\<rparr>)]"

fun detect_in :: "(string \<times> extractor) list \<Rightarrow> node \<Rightarrow> string option" where
  "detect_in [] soup = None"
| "detect_in ((doc_type, funcs) # rest) soup =
     (if detector funcs soup then Some doc_type else detect_in rest soup)"

definition detect_doc_type :: "node \<Rightarrow> string option" where
  "detect_doc_type soup = detect_in EXTRACTORS soup"

text \<open>\<open>get_extractors(soup)\<close>; \<open>None\<close> stands for the \<open>KeyError\<close> of a failed lookup
  in the registry.\<close>

definition get_extractors ::
  "node \<Rightarrow> ((node \<Rightarrow> exn + string) \<times> (node \<Rightarrow> string list)) option" where
  "get_extractors soup =
     (case detect_doc_type soup of
        Some doc_type \<Rightarrow>
          (case map_of EXTRACTORS doc_type of
             Some e \<Rightarrow> Some (content_extractor e, link_extractor e)
           | None \<Rightarrow>
               (case map_of EXTRACTORS ''webdoc'' of None \<Rightarrow> None
                | Some w \<Rightarrow> map_option (\<lambda>e. (content_extractor w, link_extractor e))
                              (map_of EXTRACTORS doc_type)))
      | None \<Rightarrow>
          (case map_of EXTRACTORS ''webdoc'' of None \<Rightarrow> None
           | Some w \<Rightarrow> Some (content_extractor w, link_extractor w)))"

section \<open>URLs (\<open>urllib.parse\<close> as used by \<open>main.py\<close>)\<close>

text \<open>
  \<open>urlsplit(url)\<close> of the standard library, step by step. \<open>clean_url\<close>: leading characters
  up to the space are stripped, then tab, carriage return and line feed are removed
  everywhere.
\<close>

definition clean_url :: "string \<Rightarrow> string" where
  "clean_url url =
     filter (\<lambda>c. c \<noteq> CHR 0x09 \<and> c \<noteq> CHR 0x0D \<and> c \<noteq> CHR 0x0A)
       (dropWhile (\<lambda>c. (of_char c :: nat) \<le> 32) url)"

definition isalpha_ascii :: "char \<Rightarrow> bool" where
  "isalpha_ascii c = (let n = of_char c :: nat in (65 \<le> n \<and> n \<le> 90) \<or> (97 \<le> n \<and> n \<le> 122))"

definition scheme_char :: "char \<Rightarrow> bool" where
  "scheme_char c = (let n = of_char c :: nat in
     (65 \<le> n \<and> n \<le> 90) \<or> (97 \<le> n \<and> n \<le> 122) \<or> (48 \<le> n \<and> n \<le> 57)
     \<or> n = 43 \<or> n = 45 \<or> n = 46)"

text \<open>The scheme is the text before the first colon when that text is not empty, starts with a
  letter and has scheme characters only; it is returned in lower case with the text after the
  colon.\<close>

definition split_scheme :: "string \<Rightarrow> string \<times> string" where
  "split_scheme url =
     (let pre = takeWhile (\<lambda>c. c \<noteq> CHR '':'') url in
      if CHR '':'' \<in> set url \<and> pre \<noteq> [] \<and> isalpha_ascii (hd url) \<and> list_all scheme_char pre
      then (map lower_char pre, tl (dropWhile (\<lambda>c. c \<noteq> CHR '':'') url))
      else ([], url))"

definition netloc_delim :: "char \<Rightarrow> bool" where
  "netloc_delim c = (c = CHR ''/'' \<or> c = CHR ''?'' \<or> c = CHR ''#'')"

text \<open>\<open>_splitnetloc(url, 2)\<close> behind a leading \<open>//\<close>.\<close>

definition split_netloc :: "string \<Rightarrow> string \<times> string" where
  "split_netloc url =
     (if take 2 url = ''//''
      then (takeWhile (\<lambda>c. \<not> netloc_delim c) (drop 2 url),
            dropWhile (\<lambda>c. \<not> netloc_delim c) (drop 2 url))
      else ([], url))"

text \<open>
  The checks on brackets in the host, which raise \<open>ValueError\<close>. The library's test of the
  text between the brackets (an IPv6 or IPvFuture literal) is the parameter \<open>host_ok\<close>.
  The further screen of the host under Unicode normalisation rejects nothing made of code
  points below 256 and is left out.
\<close>

definition bracketed_host :: "string \<Rightarrow> string" where
  "bracketed_host netloc =
     takeWhile (\<lambda>c. c \<noteq> CHR '']'') (tl (dropWhile (\<lambda>c. c \<noteq> CHR ''['') netloc))"

definition netloc_invalid :: "(string \<Rightarrow> bool) \<Rightarrow> string \<Rightarrow> bool" where
  "netloc_invalid host_ok netloc =
     ((CHR ''['' \<in> set netloc \<and> CHR '']'' \<notin> set netloc)
      \<or> (CHR '']'' \<in> set netloc \<and> CHR ''['' \<notin> set netloc)
      \<or> (CHR ''['' \<in> set netloc \<and> CHR '']'' \<in> set netloc \<and> \<not> host_ok (bracketed_host netloc)))"

text \<open>\<open>url.split(c, 1)\<close> when \<open>c\<close> occurs in \<open>url\<close>, and the pair \<open>(url, '')\<close> otherwise.\<close>

definition split_at :: "char \<Rightarrow> string \<Rightarrow> string \<times> string" where
  "split_at c url =
     (if c \<in> set url
      then (takeWhile (\<lambda>x. x \<noteq> c) url, tl (dropWhile (\<lambda>x. x \<noteq> c) url))
      else (url, []))"

record url_parts =
  scheme :: string
  netloc :: string
  path :: string
  params :: string
  query :: string
  fragment :: string

definition urlsplit :: "(string \<Rightarrow> bool) \<Rightarrow> string \<Rightarrow> exn + url_parts" where
  "urlsplit host_ok url0 =
     (let (scheme, url1) = split_scheme (clean_url url0);
          (netloc, url2) = split_netloc url1
      in if netloc_invalid host_ok netloc then Inl ValueError
         else let (url3, fragment) = split_at (CHR ''#'') url2;
                  (url4, query) = split_at (CHR ''?'') url3
              in Inr \<lparr>scheme = scheme, netloc = netloc, path = url4, params = [],
                       query = query, fragment = fragment\<rparr>)"

definition uses_params :: "string list" where
  "uses_params = ['''', ''ftp'', ''hdl'', ''prospero'', ''http'', ''imap'', ''https'', ''shttp'',
     ''rtsp'', ''rtsps'', ''rtspu'', ''sip'', ''sips'', ''mms'', ''sftp'', ''tel'']"

text \<open>\<open>_splitparams(url)\<close>, called when \<open>url\<close> has a semicolon: the parameters start at the
  first semicolon behind the last slash.\<close>

definition splitparams :: "string \<Rightarrow> string \<times> string" where
  "splitparams url =
     (if CHR ''/'' \<in> set url
      then (let seg = rev (takeWhile (\<lambda>c. c \<noteq> CHR ''/'') (rev url));
                front = rev (dropWhile (\<lambda>c. c \<noteq> CHR ''/'') (rev url))
            in if CHR '';'' \<notin> set seg then (url, [])
               else (front @ takeWhile (\<lambda>c. c \<noteq> CHR '';'') seg,
                     tl (dropWhile (\<lambda>c. c \<noteq> CHR '';'') seg)))
      else (takeWhile (\<lambda>c. c \<noteq> CHR '';'') url, tl (dropWhile (\<lambda>c. c \<noteq> CHR '';'') url)))"

definition urlparse :: "(string \<Rightarrow> bool) \<Rightarrow> string \<Rightarrow> exn + url_parts" where
  "urlparse host_ok url =
     (case urlsplit host_ok url of
        Inl e \<Rightarrow> Inl e
      | Inr r \<Rightarrow>
          if scheme r \<in> set uses_params \<and> CHR '';'' \<in> set (path r)
          then (case splitparams (path r) of (url', ps) \<Rightarrow> Inr (r\<lparr>path := url', params := ps\<rparr>))
          else Inr r)"

text \<open>\<open>normalize_url(url)\<close> of \<open>main.py\<close>. The loop that removes trailing slashes works on
  the whole string \<open>scheme://netloc path\<close>.\<close>

definition rstrip_slashes :: "string \<Rightarrow> string" where
  "rstrip_slashes s = rev (dropWhile (\<lambda>c. c = CHR ''/'') (rev s))"

definition normalize_url :: "(string \<Rightarrow> bool) \<Rightarrow> string \<Rightarrow> exn + string" where
  "normalize_url host_ok url =
     (case urlparse host_ok url of
        Inl e \<Rightarrow> Inl e
      | Inr parsed \<Rightarrow>
          (let normalized = rstrip_slashes (scheme parsed @ ''://'' @ netloc parsed @ path parsed)
           in Inr (if query parsed \<noteq> [] then normalized @ ''?'' @ query parsed else normalized)))"

section \<open>The crawler (\<open>main.py\<close>)\<close>

text \<open>
  What the program does not compute itself is a parameter of the model: the reply of the
  network to the \<open>n\<close>-th request of a run, the tree the parser builds from a text,
  \<open>urljoin\<close>, the converter to Markdown, the library's test of a bracketed host,
  whether \<open>time.sleep(args.delay)\<close> raises (it does for a negative delay), whether writing
  the temporary file raises, whether the \<open>n\<close>-th call of \<open>save_to_file\<close> can write, and
  the clock.
\<close>

datatype reply = Response nat string | RequestException

record world =
  requests_get :: "nat \<Rightarrow> string \<Rightarrow> reply"
  html_parser :: "string \<Rightarrow> node"
  urljoin :: "string \<Rightarrow> string \<Rightarrow> exn + string"
  convert_local :: "string \<Rightarrow> exn + string"
  ipv6_ok :: "string \<Rightarrow> bool"
  time_sleep :: "exn option"
  tempfile_write :: "string \<Rightarrow> exn option"
  file_write :: "nat \<Rightarrow> bool"
  timestamp :: string
  today :: string

record args =
  args_url :: string
  args_max_pages :: "int option"

text \<open>
  The state of a run: the set \<open>scraped_urls\<close>, the URLs requested so far, the chunks written
  to the output file, the number of calls of \<open>save_to_file\<close>, and the messages printed.
\<close>

datatype event =
    ErrorFetching string
  | ErrorConverting exn
  | ErrorSaving
  | Skipping string
  | Scraped string
  | ErrorScraping string exn

record state =
  scraped_urls :: "string set"
  requests :: "string list"
  output_file :: "string list"
  saves :: nat
  printed :: "event list"

text \<open>
  A step of the program returns a value, raises an exception of class \<open>Exception\<close>, or
  leaves the program through \<open>sys.exit\<close>; \<open>SystemExit\<close> is not of class \<open>Exception\<close>,
  so \<open>except Exception\<close> does not catch it.
\<close>

datatype 'a outcome = Return 'a | Raise exn | SystemExit nat

type_synonym 'a action = "state \<Rightarrow> 'a outcome \<times> state"

definition ret :: "'a \<Rightarrow> 'a action" where
  "ret x \<sigma> = (Return x, \<sigma>)"

definition lift :: "exn + 'a \<Rightarrow> 'a action" where
  "lift v \<sigma> = (case v of Inl e \<Rightarrow> (Raise e, \<sigma>) | Inr x \<Rightarrow> (Return x, \<sigma>))"

definition seq :: "'a action \<Rightarrow> ('a \<Rightarrow> 'b action) \<Rightarrow> 'b action" where
  "seq m f \<sigma> =
     (case m \<sigma> of
        (Return x, \<sigma>') \<Rightarrow> f x \<sigma>'
      | (Raise e, \<sigma>') \<Rightarrow> (Raise e, \<sigma>')
      | (SystemExit k, \<sigma>') \<Rightarrow> (SystemExit k, \<sigma>'))"

definition try_except :: "'a action \<Rightarrow> (exn \<Rightarrow> 'a action) \<Rightarrow> 'a action" where
  "try_except m h \<sigma> =
     (case m \<sigma> of
        (Raise e, \<sigma>') \<Rightarrow> h e \<sigma>'
      | other \<Rightarrow> other)"

definition print :: "event \<Rightarrow> unit action" where
  "print e \<sigma> = (Return (), \<sigma>\<lparr>printed := printed \<sigma> @ [e]\<rparr>)"

text \<open>\<open>fetch_url(url)\<close>: a failed request, and a status from 400 to 599, end the program.\<close>

definition fetch_url :: "world \<Rightarrow> string \<Rightarrow> string action" where
  "fetch_url w u \<sigma> =
     (let \<sigma>' = \<sigma>\<lparr>requests := requests \<sigma> @ [u]\<rparr> in
      case requests_get w (length (requests \<sigma>)) u of
        RequestException \<Rightarrow> (SystemExit 1, \<sigma>'\<lparr>printed := printed \<sigma>' @ [ErrorFetching u]\<rparr>)
      | Response status_code body \<Rightarrow>
          if 400 \<le> status_code \<and> status_code < 600
          then (SystemExit 1, \<sigma>'\<lparr>printed := printed \<sigma>' @ [ErrorFetching u]\<rparr>)
          else (Return body, \<sigma>'))"

text \<open>\<open>save_to_file(content, output_file, mode)\<close>; the flag is true for the mode \<open>a\<close>.\<close>

definition save_to_file :: "world \<Rightarrow> string \<Rightarrow> bool \<Rightarrow> unit action" where
  "save_to_file w chunk mode_a \<sigma> =
     (let \<sigma>' = \<sigma>\<lparr>saves := saves \<sigma> + 1\<rparr> in
      if file_write w (saves \<sigma>)
      then (Return (), \<sigma>'\<lparr>output_file := (if mode_a then output_file \<sigma> @ [chunk] else [chunk])\<rparr>)
      else (SystemExit 1, \<sigma>'\<lparr>printed := printed \<sigma>' @ [ErrorSaving]\<rparr>))"

text \<open>\<open>s.replace(old, new)\<close>: the occurrences of \<open>old\<close> are replaced from left to right
  without overlap; the first argument of \<open>replace_from\<close> counts the characters of a match
  still to be skipped.\<close>

fun replace_from :: "nat \<Rightarrow> string \<Rightarrow> string \<Rightarrow> string \<Rightarrow> string" where
  "replace_from k old new [] = []"
| "replace_from k old new (c # cs) =
     (if 0 < k then replace_from (k - 1) old new cs
      else if prefix old (c # cs) then new @ replace_from (length old - 1) old new cs
      else c # replace_from 0 old new cs)"

definition replace :: "string \<Rightarrow> string \<Rightarrow> string \<Rightarrow> string" where
  "replace old new s =
     (if old = [] then concat (map (\<lambda>c. new @ [c]) s) @ new else replace_from 0 old new s)"

text \<open>The conversion step of \<open>scrape_page\<close>: the \<open>try\<close> block with its handler.\<close>

definition convert_step :: "world \<Rightarrow> string \<Rightarrow> string action" where
  "convert_step w html_content =
     try_except
       (seq (lift (convert_local w html_content)) (\<lambda>markdown_content.
        ret (replace ''<s>'' (CHR 0x5C # ''<s>'') (replace ''<S>'' (CHR 0x5C # ''<S>'') markdown_content))))
       (\<lambda>e. seq (print (ErrorConverting e)) (\<lambda>_. ret html_content))"

record page =
  page_url :: string
  page_content :: string
  page_title :: "string option"

definition is_http :: "string \<Rightarrow> bool" where
  "is_http u = (prefix ''http://'' u \<or> prefix ''https://'' u)"

text \<open>\<open>scrape_page(url, base_url, content_extractor)\<close>.\<close>

definition scrape_page ::
  "world \<Rightarrow> string \<Rightarrow> string option \<Rightarrow> (node \<Rightarrow> exn + string) option \<Rightarrow> page action" where
  "scrape_page w u base_url extractor_arg =
     seq (case base_url of
            None \<Rightarrow> ret u
          | Some b \<Rightarrow> if b \<noteq> [] \<and> \<not> is_http u then lift (urljoin w b u) else ret u) (\<lambda>full_url.
     seq (fetch_url w full_url) (\<lambda>resp_text.
     seq (case extractor_arg of
            Some f \<Rightarrow> ret f
          | None \<Rightarrow> (case get_extractors (html_parser w resp_text) of
                       None \<Rightarrow> lift (Inl KeyError)
                     | Some (c, l) \<Rightarrow> ret c)) (\<lambda>f.
     seq (lift (f (html_parser w resp_text))) (\<lambda>fragment.
     seq (lift (case tempfile_write w (''<html><body>'' @ fragment @ ''</body></html>'') of
                  Some e \<Rightarrow> Inl e | None \<Rightarrow> Inr ())) (\<lambda>_.
     seq (convert_step w (''<html><body>'' @ fragment @ ''</body></html>'')) (\<lambda>markdown_content.
     ret \<lparr>page_url = full_url, page_content = markdown_content,
          page_title = map_option text_of
            (find_first (is_tag ''title'') (html_parser w resp_text))\<rparr>))))))"

text \<open>The loop of \<open>main\<close> that builds the list \<open>links\<close> from the raw links, for the set
  \<open>scraped_urls\<close> of that moment, which the loop does not change.\<close>

fun build_links :: "world \<Rightarrow> string \<Rightarrow> string set \<Rightarrow> string list \<Rightarrow> exn + string list" where
  "build_links w initial_url scraped [] = Inr []"
| "build_links w initial_url scraped (link # raw_links) =
     and_then (if \<not> is_http link then urljoin w initial_url link else Inr link) (\<lambda>full_link.
     and_then (normalize_url (ipv6_ok w) full_link) (\<lambda>normalized_link.
     and_then (build_links w initial_url scraped raw_links) (\<lambda>rest.
     Inr (if normalized_link \<notin> scraped then full_link # rest else rest))))"

text \<open>\<open>xs[:m]\<close>.\<close>

definition slice_to :: "int \<Rightarrow> 'a list \<Rightarrow> 'a list" where
  "slice_to m xs = (if 0 \<le> m then take (nat m) xs else take (length xs - nat (- m)) xs)"

definition page_chunk :: "page \<Rightarrow> string" where
  "page_chunk pg = [CHR 0x0A] @ page_url pg @ [CHR 0x0A, CHR 0x0A] @ ''----'' @ [CHR 0x0A, CHR 0x0A]
     @ page_content pg @ [CHR 0x0A, CHR 0x0A] @ ''----'' @ [CHR 0x0A]"

definition first_chunk :: "world \<Rightarrow> string \<Rightarrow> page \<Rightarrow> string" where
  "first_chunk w extractor_type pg = ''----'' @ [CHR 0x0A, CHR 0x0A] @ ''Created: '' @ timestamp w
     @ [CHR 0x0A] @ ''Extractor: '' @ extractor_type @ [CHR 0x0A, CHR 0x0A] @ ''----''
     @ [CHR 0x0A, CHR 0x0A] @ page_url pg @ [CHR 0x0A, CHR 0x0A] @ ''----'' @ [CHR 0x0A, CHR 0x0A]
     @ page_content pg @ [CHR 0x0A, CHR 0x0A] @ ''----'' @ [CHR 0x0A]"

text \<open>The body of the last loop of \<open>main\<close> for one link, and the loop over the links it is
  given.\<close>

definition process_link :: "world \<Rightarrow> string \<Rightarrow> (node \<Rightarrow> exn + string) \<Rightarrow> string \<Rightarrow> unit action" where
  "process_link w initial_url f link =
     try_except
       (seq (lift (normalize_url (ipv6_ok w) link)) (\<lambda>normalized_link \<sigma>.
          if normalized_link \<in> scraped_urls \<sigma>
          then print (Skipping link) \<sigma>
          else seq (lift (case time_sleep w of Some e \<Rightarrow> Inl e | None \<Rightarrow> Inr ())) (\<lambda>_.
               seq (\<lambda>\<sigma>. (Return (), \<sigma>\<lparr>scraped_urls := insert normalized_link (scraped_urls \<sigma>)\<rparr>)) (\<lambda>_.
               seq (scrape_page w link (Some initial_url) (Some f)) (\<lambda>page_data.
               seq (save_to_file w (page_chunk page_data) True) (\<lambda>_.
               print (Scraped link))))) \<sigma>))
       (\<lambda>e. print (ErrorScraping link e))"

fun drain :: "world \<Rightarrow> string \<Rightarrow> (node \<Rightarrow> exn + string) \<Rightarrow> string list \<Rightarrow> unit action" where
  "drain w initial_url f [] = ret ()"
| "drain w initial_url f (link # rest) =
     seq (process_link w initial_url f link) (\<lambda>_. drain w initial_url f rest)"

text \<open>\<open>get_output_path(url)\<close>: the directory named after the host and the file named after
  the day.\<close>

definition get_output_path :: "world \<Rightarrow> string \<Rightarrow> exn + string \<times> string" where
  "get_output_path w u =
     and_then (urlparse (ipv6_ok w) u) (\<lambda>parsed_url.
     Inr (replace ''.'' ''_'' (netloc parsed_url), ''api_'' @ today w @ ''.md''))"

definition initial_state :: state where
  "initial_state = \<lparr>scraped_urls = {}, requests = [], output_file = [], saves = 0, printed = []\<rparr>"

text \<open>\<open>main()\<close> for parsed arguments.\<close>

definition main :: "world \<Rightarrow> args \<Rightarrow> unit action" where
  "main w a =
     seq (lift (normalize_url (ipv6_ok w) (args_url a))) (\<lambda>initial_url.
     seq (\<lambda>\<sigma>. (Return (), \<sigma>\<lparr>scraped_urls := insert initial_url (scraped_urls \<sigma>)\<rparr>)) (\<lambda>_.
     seq (fetch_url w initial_url) (\<lambda>resp_text.
     seq (case get_extractors (html_parser w resp_text) of
            None \<Rightarrow> lift (Inl KeyError)
          | Some (c, l) \<Rightarrow> ret (c, l)) (\<lambda>(c, l).
     seq (\<lambda>\<sigma>. lift (build_links w initial_url (scraped_urls \<sigma>) (l (html_parser w resp_text))) \<sigma>) (\<lambda>links.
     seq (scrape_page w initial_url None (Some c)) (\<lambda>initial_page.
     seq (lift (get_output_path w initial_url)) (\<lambda>output_path.
     seq (save_to_file w
            (first_chunk w
               (case detect_doc_type (html_parser w resp_text) of
                  None \<Rightarrow> ''generic''
                | Some doc_type \<Rightarrow> if doc_type = [] then ''generic'' else doc_type)
               initial_page) False) (\<lambda>_.
     seq (print (Scraped initial_url)) (\<lambda>_.
     drain w initial_url c
       (slice_to (case args_max_pages a of
                    None \<Rightarrow> int (length links)
                  | Some m \<Rightarrow> if m = 0 then int (length links) else m) links))))))))))"

section \<open>Runs without failures\<close>

text \<open>
  A world in which every request is answered with a status outside 400 to 599, the pause
  returns, and every file can be written and every link joined.
\<close>

definition reliable :: "world \<Rightarrow> bool" where
  "reliable w =
     ((\<forall>n u. case requests_get w n u of
               Response status_code body \<Rightarrow> \<not> (400 \<le> status_code \<and> status_code < 600)
             | RequestException \<Rightarrow> False)
      \<and> time_sleep w = None
      \<and> (\<forall>h. tempfile_write w h = None)
      \<and> (\<forall>n. file_write w n)
      \<and> (\<forall>b u. \<exists>x. urljoin w b u = Inr x))"

text \<open>The URL that \<open>scrape_page(url, base_url, ...)\<close> requests in such a world.\<close>

definition full_url :: "world \<Rightarrow> string \<Rightarrow> string \<Rightarrow> string" where
  "full_url w b u = (if b \<noteq> [] \<and> \<not> is_http u then (case urljoin w b u of Inr x \<Rightarrow> x | Inl e \<Rightarrow> u) else u)"

text \<open>
  The entries of a list of links whose normal form is defined, is not in a given set, and is
  not the normal form of an earlier entry, in the order of the list.
\<close>

definition first_unvisited :: "(string \<Rightarrow> bool) \<Rightarrow> string set \<Rightarrow> string list \<Rightarrow> string list" where
  "first_unvisited ok seen ls =
     map (\<lambda>k. ls ! k)
       (filter (\<lambda>k. case normalize_url ok (ls ! k) of
                       Inl e \<Rightarrow> False
                     | Inr v \<Rightarrow> v \<notin> seen \<and> Inr v \<notin> set (map (normalize_url ok) (take k ls)))
          [0..<length ls])"

text \<open>The same entries by recursion over the list, with the set of the normal forms met so
  far, and that set behind the whole list.\<close>

fun fresh :: "(string \<Rightarrow> bool) \<Rightarrow> string set \<Rightarrow> string list \<Rightarrow> string list" where
  "fresh ok seen [] = []"
| "fresh ok seen (l # ls) =
     (case normalize_url ok l of
        Inl e \<Rightarrow> fresh ok seen ls
      | Inr v \<Rightarrow> if v \<in> seen then fresh ok seen ls else l # fresh ok (insert v seen) ls)"

fun visited :: "(string \<Rightarrow> bool) \<Rightarrow> string set \<Rightarrow> string list \<Rightarrow> string set" where
  "visited ok seen [] = seen"
| "visited ok seen (l # ls) =
     (case normalize_url ok l of
        Inl e \<Rightarrow> visited ok seen ls
      | Inr v \<Rightarrow> visited ok (insert v seen) ls)"

section \<open>Example inputs\<close>

text \<open>The spec's words for the order of the result (deduplicated, first-seen order kept): the
  entries of a list that did not occur earlier in it, in the order of the list.\<close>

definition spec_first_seen :: "string list \<Rightarrow> string list" where
  "spec_first_seen xs =
     map (\<lambda>i. xs ! i) (filter (\<lambda>i. xs ! i \<notin> set (take i xs)) [0..<length xs])"

definition side_nav_page :: node where
  "side_nav_page = Tag ''[document]'' []
     [Tag ''div'' [(''class'', ''side-nav'')] [Tag ''a'' [(''href'', ''p.html'')] []]]"

definition nav_page :: node where
  "nav_page = Tag ''[document]'' []
     [Tag ''nav'' []
        [Tag ''a'' [(''href'', ''p.html'')] [], Tag ''a'' [(''href'', ''#top'')] [],
         Tag ''a'' [(''href'', ''q.html'')] [], Tag ''a'' [(''href'', ''p.html'')] []]]"

definition plain_page :: node where
  "plain_page = Tag ''[document]'' []
     [Tag ''p'' [] [Tag ''a'' [(''href'', ''p.html'')] []]]"

definition plain_footer_page :: node where
  "plain_footer_page = Tag ''[document]'' []
     [Tag ''html'' [] [Tag ''body'' []
        [Tag ''p'' [] [NavigableString ''API reference''],
         Tag ''footer'' [] [NavigableString ''Documentation generated by Webdoc'']]]]"

definition classed_footer_page :: node where
  "classed_footer_page = Tag ''[document]'' []
     [Tag ''html'' [] [Tag ''body'' []
        [Tag ''p'' [] [NavigableString ''API reference''],
         Tag ''footer'' [(''class'', ''footer content-size'')]
           [NavigableString ''Documentation generated by Webdoc'']]]]"

definition trailing_newline_page :: node where
  "trailing_newline_page = Tag ''[document]'' []
     [Tag ''p'' [] [NavigableString ''hi''], NavigableString [CHR 0x0A]]"

text \<open>A seed page with the given links in its navigation, a world that serves it at
  \<open>http://example.com\<close> and a one-paragraph page elsewhere, and the same world with one
  address that cannot be reached.\<close>

definition linked_page :: "string list \<Rightarrow> node" where
  "linked_page hrefs = Tag ''[document]'' []
     [Tag ''html'' [] [Tag ''body'' []
        [Tag ''nav'' [] (map (\<lambda>h. Tag ''a'' [(''href'', h)] [NavigableString h]) hrefs),
         Tag ''p'' [] [NavigableString ''Welcome'']]]]"

definition example_world :: "string list \<Rightarrow> world" where
  "example_world hrefs =
     \<lparr>requests_get = (\<lambda>n u. Response 200 (if u = ''http://example.com'' then ''seed'' else ''page'')),
      html_parser = (\<lambda>t. if t = ''seed'' then linked_page hrefs
                         else Tag ''[document]'' [] [Tag ''p'' [] [NavigableString t]]),
      urljoin = (\<lambda>b u. Inr (b @ ''/'' @ u)),
      convert_local = (\<lambda>h. if h = ''<html><body><p>page</p></body></html>''
                           then Inr ''page <S>'' else Inl ValueError),
      ipv6_ok = (\<lambda>h. True),
      time_sleep = None,
      tempfile_write = (\<lambda>h. None),
      file_write = (\<lambda>n. True),
      timestamp = ''2024-01-01:00:00:00'',
      today = ''2024_01_01''\<rparr>"

definition failing_world :: world where
  "failing_world = (example_world [''http://example.com/a'', ''http://example.com/b''])
     \<lparr>requests_get := (\<lambda>n u. if u = ''http://example.com/a'' then RequestException
          else Response 200 (if u = ''http://example.com'' then ''seed'' else ''page''))\<rparr>"


section \<open>Properties of the link extractor\<close>

lemma unique_links_index:
  "unique_links seen xs =
     map (\<lambda>i. xs ! i) (filter (\<lambda>i. xs ! i \<notin> set seen \<union> set (take i xs)) [0..<length xs])"
proof (induction xs arbitrary: seen)
  case Nil
  show ?case by simp
next
  case (Cons x xs)
  have upt: "[0..<length (x # xs)] = 0 # map Suc [0..<length xs]"
    by (simp add: upt_conv_Cons map_Suc_upt del: upt_Suc)
  show ?case
    unfolding upt
    by (auto simp add: Cons.IH filter_map o_def
          intro!: arg_cong[where f="map ((!) xs)"] filter_cong)
qed

lemma set_unique_links: "set (unique_links seen xs) = set xs - set seen"
  by (induction xs arbitrary: seen) auto

lemma distinct_unique_links: "distinct (unique_links seen xs)"
  by (induction xs arbitrary: seen) (auto simp: set_unique_links)

lemma anchor_hrefs_ok:
  "h \<in> set (anchor_hrefs t) \<Longrightarrow> h \<noteq> [] \<and> \<not> prefix ''#'' h \<and> \<not> prefix ''javascript:'' h"
  by (auto simp: anchor_hrefs_def split: option.splits if_splits)

lemma collect_links_ok:
  "h \<in> set (collect_links soup) \<Longrightarrow> \<not> prefix ''#'' h \<and> \<not> prefix ''javascript:'' h"
  by (auto simp: collect_links_def Let_def dest: anchor_hrefs_ok split: option.splits if_splits)

lemma find_first_None_iff: "find_first p t = None \<longleftrightarrow> (\<forall>x \<in> set (descendants t). \<not> p x)"
  by (auto simp: find_first_def find_all_def filter_empty_conv split: list.splits)
     (metis filter_empty_conv list.distinct(1))

lemma class_in_mono: "class_in ws t \<Longrightarrow> set ws \<subseteq> set ws' \<Longrightarrow> class_in ws' t"
  by (auto simp: class_in_def list_ex_iff split: option.splits)

text \<open>
  C7, as stated, fails: a page whose only navigation container is a \<open>div\<close> of class
  \<open>side-nav\<close> has no \<open>nav\<close> element and no element of class \<open>navigation\<close>,
  \<open>sidebar\<close> or \<open>menu\<close>, and its link is extracted all the same.
\<close>

theorem extract_navigation_links_side_nav:
  "find_first (is_tag ''nav'') side_nav_page = None
   \<and> find_first (class_in [''navigation'', ''sidebar'', ''menu'']) side_nav_page = None
   \<and> extract_navigation_links side_nav_page = [''p.html'']"
  by code_simp

text \<open>
  C7 (amended): for every parse tree, no extracted link starts with \<open>#\<close> or with
  \<open>javascript:\<close>, no link occurs twice, the links are the collected \<open>href\<close> values in
  first-seen order, and the result is empty when the tree has neither a \<open>nav\<close> element nor a
  \<open>div\<close> of class \<open>navigation\<close>, \<open>sidebar\<close>, \<open>menu\<close> or \<open>side-nav\<close>.
\<close>

theorem extract_navigation_links_contract:
  "(\<forall>h \<in> set (extract_navigation_links soup).
       \<not> prefix ''#'' h \<and> \<not> prefix ''javascript:'' h)
   \<and> distinct (extract_navigation_links soup)
   \<and> extract_navigation_links soup = spec_first_seen (collect_links soup)
   \<and> (find_first (is_tag ''nav'') soup = None
        \<and> find_first (\<lambda>x. is_tag ''div'' x
              \<and> class_in [''navigation'', ''sidebar'', ''menu'', ''side-nav''] x) soup = None
      \<longrightarrow> extract_navigation_links soup = [])"
proof (intro conjI impI ballI)
  fix h assume "h \<in> set (extract_navigation_links soup)"
  then have "h \<in> set (collect_links soup)"
    by (simp add: extract_navigation_links_def set_unique_links)
  then show "\<not> prefix ''#'' h" and "\<not> prefix ''javascript:'' h"
    using collect_links_ok by blast+
next
  show "distinct (extract_navigation_links soup)"
    by (simp add: extract_navigation_links_def distinct_unique_links)
next
  show "extract_navigation_links soup = spec_first_seen (collect_links soup)"
    by (simp add: extract_navigation_links_def spec_first_seen_def unique_links_index)
next
  assume h: "find_first (is_tag ''nav'') soup = None
     \<and> find_first (\<lambda>x. is_tag ''div'' x
           \<and> class_in [''navigation'', ''sidebar'', ''menu'', ''side-nav''] x) soup = None"
  then have none: "\<forall>x \<in> set (descendants soup). \<not> (is_tag ''div'' x
       \<and> class_in [''navigation'', ''sidebar'', ''menu'', ''side-nav''] x)"
    by (simp add: find_first_None_iff)
  have "find_first (\<lambda>x. is_tag ''div'' x \<and> class_in [''navigation''] x) soup = None"
    unfolding find_first_None_iff using none class_in_mono by fastforce
  then have nav: "find_navigation soup = None"
    using h by (simp add: find_navigation_def)
  have side: "find_sidebar soup = None"
    unfolding find_sidebar_def find_first_None_iff using none class_in_mono by fastforce
  show "extract_navigation_links soup = []"
    by (simp add: extract_navigation_links_def collect_links_def nav side)
qed

theorem extract_navigation_links_contract_witness:
  "extract_navigation_links nav_page = [''p.html'', ''q.html'']
   \<and> spec_first_seen (collect_links nav_page) = [''p.html'', ''q.html'']
   \<and> distinct (extract_navigation_links nav_page)
   \<and> find_first (is_tag ''nav'') plain_page = None
   \<and> find_first (\<lambda>x. is_tag ''div'' x
         \<and> class_in [''navigation'', ''sidebar'', ''menu'', ''side-nav''] x) plain_page = None
   \<and> extract_navigation_links plain_page = []"
proof -
  have a: "extract_navigation_links nav_page = [''p.html'', ''q.html'']"
    by code_simp
  have c: "find_first (is_tag ''nav'') plain_page = None"
    by code_simp
  have d: "find_first (\<lambda>x. is_tag ''div'' x
         \<and> class_in [''navigation'', ''sidebar'', ''menu'', ''side-nav''] x) plain_page = None"
    by code_simp
  from extract_navigation_links_contract [of nav_page]
  have e: "extract_navigation_links nav_page = spec_first_seen (collect_links nav_page)"
    and f: "distinct (extract_navigation_links nav_page)"
    by blast+
  from extract_navigation_links_contract [of plain_page] c d
  have g: "extract_navigation_links plain_page = []"
    by blast
  from a e have e': "spec_first_seen (collect_links nav_page) = [''p.html'', ''q.html'']"
    by metis
  from a e' f c d g show ?thesis
    by blast
qed

section \<open>Properties of the detector\<close>

lemma contains_iff: "contains sub s \<longleftrightarrow> (\<exists>p q. s = p @ sub @ q)"
proof (induction s)
  case Nil
  show ?case by auto
next
  case (Cons c cs)
  show ?case
  proof
    assume "contains sub (c # cs)"
    then consider "prefix sub (c # cs)" | "contains sub cs" by auto
    then show "\<exists>p q. c # cs = p @ sub @ q"
    proof cases
      case 1
      then obtain q where "c # cs = sub @ q" by (auto simp: prefix_def)
      then have "c # cs = [] @ sub @ q" by simp
      then show ?thesis by blast
    next
      case 2
      with Cons.IH obtain p q where "cs = p @ sub @ q" by blast
      then have "c # cs = (c # p) @ sub @ q" by simp
      then show ?thesis by blast
    qed
  next
    assume "\<exists>p q. c # cs = p @ sub @ q"
    then obtain p q where pq: "c # cs = p @ sub @ q" by blast
    show "contains sub (c # cs)"
    proof (cases p)
      case Nil
      with pq have "prefix sub (c # cs)" by (simp add: prefix_def)
      then show ?thesis by simp
    next
      case (Cons d p')
      with pq have "cs = p' @ sub @ q" by simp
      with Cons.IH have "contains sub cs" by blast
      then show ?thesis by simp
    qed
  qed
qed

lemma contains_append_left: "contains (a @ b) s \<Longrightarrow> contains a s"
proof -
  assume "contains (a @ b) s"
  then obtain p q where "s = p @ (a @ b) @ q" unfolding contains_iff by blast
  then have "s = p @ a @ (b @ q)" by simp
  then show ?thesis unfolding contains_iff by blast
qed

lemma contains_append_right: "contains (a @ b) s \<Longrightarrow> contains b s"
proof -
  assume "contains (a @ b) s"
  then obtain p q where "s = p @ (a @ b) @ q" unfolding contains_iff by blast
  then have "s = (p @ a) @ b @ q" by simp
  then show ?thesis unfolding contains_iff by blast
qed

lemma detect_doc_type_webdoc:
  "detect_doc_type soup = (if is_webdoc_generated soup then Some ''webdoc'' else None)"
  by (simp add: detect_doc_type_def EXTRACTORS_def)

text \<open>
  C5, as stated, fails: a page whose \<open>footer\<close> element reads ``Documentation generated by
  Webdoc'' but carries no class \<open>content-size\<close>, and which has no anchor to the generator,
  is not detected.
\<close>

theorem is_webdoc_generated_plain_footer:
  "find_first (is_tag ''footer'') plain_footer_page
     = Some (Tag ''footer'' [] [NavigableString ''Documentation generated by Webdoc''])
   \<and> contains ''Documentation generated by Webdoc''
        (text_of (Tag ''footer'' [] [NavigableString ''Documentation generated by Webdoc'']))
   \<and> is_webdoc_generated plain_footer_page = False
   \<and> detect_doc_type plain_footer_page = None"
  by code_simp

text \<open>
  C5 (amended): for every page whose first \<open>footer\<close> element of class \<open>content-size\<close> has
  a text containing ``Documentation generated by Webdoc'', the detector returns true and the
  detected format is \<open>webdoc\<close>.
\<close>

theorem is_webdoc_generated_footer:
  assumes "find_first (\<lambda>x. is_tag ''footer'' x \<and> class_in [''content-size''] x) soup = Some footer"
    and "contains ''Documentation generated by Webdoc'' (text_of footer)"
  shows "is_webdoc_generated soup \<and> detect_doc_type soup = Some ''webdoc''"
proof -
  have "contains (''Documentation generated by'' @ '' Webdoc'') (text_of footer)"
    using assms(2) by simp
  then have a: "contains ''Documentation generated by'' (text_of footer)"
    by (rule contains_append_left)
  have "contains (''Documentation generated by '' @ ''Webdoc'') (text_of footer)"
    using assms(2) by simp
  then have b: "contains ''Webdoc'' (text_of footer)"
    by (rule contains_append_right)
  have "is_webdoc_generated soup"
    unfolding is_webdoc_generated_def using assms(1) a b by simp
  then show ?thesis by (simp add: detect_doc_type_webdoc)
qed

theorem is_webdoc_generated_footer_witness:
  "find_first (\<lambda>x. is_tag ''footer'' x \<and> class_in [''content-size''] x) classed_footer_page
     = Some (Tag ''footer'' [(''class'', ''footer content-size'')]
           [NavigableString ''Documentation generated by Webdoc''])
   \<and> is_webdoc_generated classed_footer_page
   \<and> detect_doc_type classed_footer_page = Some ''webdoc''"
proof -
  have a: "find_first (\<lambda>x. is_tag ''footer'' x \<and> class_in [''content-size''] x) classed_footer_page
     = Some (Tag ''footer'' [(''class'', ''footer content-size'')]
           [NavigableString ''Documentation generated by Webdoc''])"
    by code_simp
  have b: "contains ''Documentation generated by Webdoc''
     (text_of (Tag ''footer'' [(''class'', ''footer content-size'')]
           [NavigableString ''Documentation generated by Webdoc'']))"
    by code_simp
  from is_webdoc_generated_footer [OF a b] a show ?thesis by blast
qed

section \<open>Properties of the content extractor\<close>

lemma strip_parts:
  "\<exists>l r. x = l @ strip x @ r \<and> list_all isspace l \<and> list_all isspace r
     \<and> (strip x = [] \<or> (\<not> isspace (hd (strip x)) \<and> \<not> isspace (last (strip x))))"
proof -
  define l where "l = takeWhile isspace x"
  define m where "m = dropWhile isspace x"
  define r where "r = rev (takeWhile isspace (rev m))"
  have s: "strip x = rev (dropWhile isspace (rev m))"
    by (simp add: strip_def m_def)
  have x: "x = l @ m"
    by (simp add: l_def m_def)
  have "strip x @ r = rev (takeWhile isspace (rev m) @ dropWhile isspace (rev m))"
    unfolding s r_def by (rule rev_append [symmetric])
  also have "\<dots> = rev (rev m)"
    by (simp only: takeWhile_dropWhile_id)
  also have "\<dots> = m"
    by simp
  finally have m: "m = strip x @ r"
    by (rule sym)
  have ll: "list_all isspace l"
    by (auto simp: l_def list_all_iff dest: set_takeWhileD)
  have lr: "list_all isspace r"
    by (auto simp: r_def list_all_iff dest: set_takeWhileD)
  have ends: "\<not> isspace (hd (strip x)) \<and> \<not> isspace (last (strip x))" if ne: "strip x \<noteq> []"
  proof -
    from ne have d: "dropWhile isspace (rev m) \<noteq> []"
      by (simp add: s)
    have "\<not> isspace (hd (dropWhile isspace (rev m)))"
      using hd_dropWhile [of isspace "rev m"] d by simp
    then have a: "\<not> isspace (last (strip x))"
      using d by (simp add: s last_rev)
    from ne m have mne: "m \<noteq> []" by auto
    have "\<not> isspace (hd m)"
      using hd_dropWhile [of isspace x] mne by (simp add: m_def)
    moreover have "hd m = hd (strip x)"
      using m ne by (metis hd_append2)
    ultimately show ?thesis using a by simp
  qed
  from x m have "x = l @ strip x @ r" by simp
  with ll lr ends show ?thesis by blast
qed

lemma decompose_all_Some: "decompose_all p (Some t) = Inr (Some (prune p t))"
  by (simp add: decompose_all_def)

lemma extract_main_content_cases:
  "extract_main_content soup =
     Inr (strip (markup
       (case find_first (\<lambda>x. is_tag ''div'' x \<and> class_in [''main''] x) soup of
          Some m \<Rightarrow> prune (is_tag ''footer'') (prune (is_tag ''style'') (prune (is_tag ''script'') m))
        | None \<Rightarrow>
            (case find_first (is_tag ''body'') soup of
               Some body \<Rightarrow>
                 prune (is_tag ''footer'') (prune (is_tag ''style'') (prune (is_tag ''script'')
                   (prune (class_where boilerplate_class)
                      (prune (is_tag_in [''header'', ''footer'', ''nav'']) body))))
             | None \<Rightarrow> soup))))"
proof (cases "find_first (\<lambda>x. is_tag ''div'' x \<and> class_in [''main''] x) soup")
  case (Some m)
  then show ?thesis
    by (simp add: extract_main_content_def and_then_def decompose_all_Some str_of_def)
next
  case None
  show ?thesis
  proof (cases "find_first (is_tag ''body'') soup")
    case (Some body)
    with None show ?thesis
      by (simp add: extract_main_content_def and_then_def decompose_all_Some str_of_def)
  next
    case n: None
    with None show ?thesis
      by (simp add: extract_main_content_def and_then_def str_of_def)
  qed
qed

text \<open>
  C8, as stated, fails in its last part: for a document without \<open>div.main\<close> and without
  \<open>body\<close> that ends in a line break, the result is not the serialised document but the
  serialised document without the line break.
\<close>

theorem extract_main_content_strips:
  "find_first (\<lambda>x. is_tag ''div'' x \<and> class_in [''main''] x) trailing_newline_page = None
   \<and> find_first (is_tag ''body'') trailing_newline_page = None
   \<and> markup trailing_newline_page = ''<p>hi</p>'' @ [CHR 0x0A]
   \<and> extract_main_content trailing_newline_page = Inr ''<p>hi</p>''"
  by code_simp

text \<open>
  C8 (amended): content extraction is total, for every parse tree it returns a string and
  raises nothing; when the tree has no \<open>div\<close> of class \<open>main\<close> and no \<open>body\<close> element,
  the result is the serialisation of the whole document without its leading and trailing
  whitespace: the serialisation is the result between two runs of whitespace, and the result
  neither starts nor ends with whitespace.
\<close>

theorem extract_main_content_total:
  "\<exists>s. extract_main_content soup = Inr s
      \<and> (find_first (\<lambda>x. is_tag ''div'' x \<and> class_in [''main''] x) soup = None
           \<and> find_first (is_tag ''body'') soup = None
          \<longrightarrow> (\<exists>l r. markup soup = l @ s @ r \<and> list_all isspace l \<and> list_all isspace r
                 \<and> (s = [] \<or> (\<not> isspace (hd s) \<and> \<not> isspace (last s)))))"
proof (cases "find_first (\<lambda>x. is_tag ''div'' x \<and> class_in [''main''] x) soup = None
           \<and> find_first (is_tag ''body'') soup = None")
  case True
  then have "extract_main_content soup = Inr (strip (markup soup))"
    by (simp add: extract_main_content_cases)
  with strip_parts [of "markup soup"] show ?thesis by blast
next
  case False
  then show ?thesis
    using extract_main_content_cases [of soup] by blast
qed

theorem extract_main_content_total_witness:
  "find_first (\<lambda>x. is_tag ''div'' x \<and> class_in [''main''] x) trailing_newline_page = None
   \<and> find_first (is_tag ''body'') trailing_newline_page = None
   \<and> markup trailing_newline_page = ''<p>hi</p>'' @ [CHR 0x0A]
   \<and> (\<exists>s l r. extract_main_content trailing_newline_page = Inr s
         \<and> ''<p>hi</p>'' @ [CHR 0x0A] = l @ s @ r \<and> list_all isspace l \<and> list_all isspace r
         \<and> (s = [] \<or> (\<not> isspace (hd s) \<and> \<not> isspace (last s))))"
proof -
  have a: "find_first (\<lambda>x. is_tag ''div'' x \<and> class_in [''main''] x) trailing_newline_page = None"
    by code_simp
  have b: "find_first (is_tag ''body'') trailing_newline_page = None"
    by code_simp
  have c: "markup trailing_newline_page = ''<p>hi</p>'' @ [CHR 0x0A]"
    by code_simp
  from extract_main_content_total [of trailing_newline_page] a b
  obtain s l r where "extract_main_content trailing_newline_page = Inr s"
    and "markup trailing_newline_page = l @ s @ r" and "list_all isspace l" and "list_all isspace r"
    and "s = [] \<or> (\<not> isspace (hd s) \<and> \<not> isspace (last s))"
    by blast
  with a b c show ?thesis by metis
qed

section \<open>Properties of URL normalisation\<close>


lemma of_char_lower_bound: "(of_char c :: nat) < 256"
  by (cases c) simp


























































section \<open>Properties of the crawler\<close>

lemma fetch_url_ok:
  assumes "reliable w"
  shows "\<exists>body. fetch_url w u \<sigma> = (Return body, \<sigma>\<lparr>requests := requests \<sigma> @ [u]\<rparr>)"
proof -
  from assms have a: "case requests_get w (length (requests \<sigma>)) u of
               Response status_code body \<Rightarrow> \<not> (400 \<le> status_code \<and> status_code < 600)
             | RequestException \<Rightarrow> False"
    unfolding reliable_def by blast
  show ?thesis
  proof (cases "requests_get w (length (requests \<sigma>)) u")
    case (Response sc body)
    with a have "\<not> (400 \<le> sc \<and> sc < 600)" by simp
    with Response show ?thesis by (simp add: fetch_url_def Let_def)
  next
    case RequestException
    with a show ?thesis by simp
  qed
qed

lemma convert_step_returns:
  "\<exists>c pr. convert_step w h \<sigma> = (Return c, \<sigma>\<lparr>printed := printed \<sigma> @ pr\<rparr>)
     \<and> c = (case convert_local w h of Inl e \<Rightarrow> h
            | Inr md \<Rightarrow> replace ''<s>'' (CHR 0x5C # ''<s>'') (replace ''<S>'' (CHR 0x5C # ''<S>'') md))"
proof (cases "convert_local w h")
  case (Inl e)
  then have "convert_step w h \<sigma> = (Return h, \<sigma>\<lparr>printed := printed \<sigma> @ [ErrorConverting e]\<rparr>)
      \<and> h = (case convert_local w h of Inl e \<Rightarrow> h
            | Inr md \<Rightarrow> replace ''<s>'' (CHR 0x5C # ''<s>'') (replace ''<S>'' (CHR 0x5C # ''<S>'') md))"
    by (simp add: convert_step_def try_except_def seq_def lift_def ret_def print_def)
  then show ?thesis by blast
next
  case (Inr md)
  define c where "c = replace ''<s>'' (CHR 0x5C # ''<s>'') (replace ''<S>'' (CHR 0x5C # ''<S>'') md)"
  have e: "\<sigma> = \<sigma>\<lparr>printed := printed \<sigma> @ []\<rparr>" by simp
  from Inr have "convert_step w h \<sigma> = (Return c, \<sigma>)"
    by (simp add: convert_step_def try_except_def seq_def lift_def ret_def c_def)
  with e have "convert_step w h \<sigma> = (Return c, \<sigma>\<lparr>printed := printed \<sigma> @ []\<rparr>)"
    by simp
  moreover from Inr have "c = (case convert_local w h of Inl e \<Rightarrow> h
            | Inr md \<Rightarrow> replace ''<s>'' (CHR 0x5C # ''<s>'') (replace ''<S>'' (CHR 0x5C # ''<S>'') md))"
    by (simp add: c_def)
  ultimately show ?thesis by blast
qed

lemma scrape_page_ok:
  assumes "reliable w" and "\<forall>t. \<exists>x. f t = Inr x"
  shows "\<exists>pg pr. scrape_page w u b (Some f) \<sigma>
            = (Return pg, \<sigma>\<lparr>requests := requests \<sigma> @ [full_url w (case b of None \<Rightarrow> [] | Some x \<Rightarrow> x) u],
                            printed := printed \<sigma> @ pr\<rparr>)
          \<and> page_url pg = full_url w (case b of None \<Rightarrow> [] | Some x \<Rightarrow> x) u"
proof -
  define fu where "fu = full_url w (case b of None \<Rightarrow> [] | Some x \<Rightarrow> x) u"
  have j: "(case b of None \<Rightarrow> ret u
          | Some b \<Rightarrow> if b \<noteq> [] \<and> \<not> is_http u then lift (urljoin w b u) else ret u) \<sigma> = (Return fu, \<sigma>)"
  proof (cases b)
    case None
    then show ?thesis by (simp add: fu_def full_url_def ret_def)
  next
    case (Some x)
    from assms(1) obtain y where "urljoin w x u = Inr y" unfolding reliable_def by blast
    with Some show ?thesis by (simp add: fu_def full_url_def ret_def lift_def)
  qed
  define \<sigma>1 where "\<sigma>1 = \<sigma>\<lparr>requests := requests \<sigma> @ [fu]\<rparr>"
  from fetch_url_ok [OF assms(1)] obtain body where
    fe: "fetch_url w fu \<sigma> = (Return body, \<sigma>1)" unfolding \<sigma>1_def by blast
  from assms(2) obtain fragment where fr: "f (html_parser w body) = Inr fragment" by blast
  from assms(1) have tw: "tempfile_write w (''<html><body>'' @ fragment @ ''</body></html>'') = None"
    unfolding reliable_def by blast
  from convert_step_returns [of w "''<html><body>'' @ fragment @ ''</body></html>''" \<sigma>1]
  obtain c pr where cs: "convert_step w (''<html><body>'' @ fragment @ ''</body></html>'') \<sigma>1
      = (Return c, \<sigma>1\<lparr>printed := printed \<sigma>1 @ pr\<rparr>)" by blast
  have "scrape_page w u b (Some f) \<sigma> =
      (Return \<lparr>page_url = fu, page_content = c,
          page_title = map_option text_of (find_first (is_tag ''title'') (html_parser w body))\<rparr>,
       \<sigma>1\<lparr>printed := printed \<sigma>1 @ pr\<rparr>)"
    unfolding scrape_page_def
    by (simp add: seq_def j fe fr tw [simplified] cs [simplified] lift_def ret_def)
  then show ?thesis
    unfolding fu_def [symmetric] by (auto simp: \<sigma>1_def)
qed

lemma save_to_file_ok:
  assumes "reliable w"
  shows "save_to_file w chunk True \<sigma>
     = (Return (), \<sigma>\<lparr>saves := saves \<sigma> + 1, output_file := output_file \<sigma> @ [chunk]\<rparr>)"
proof -
  from assms have "file_write w (saves \<sigma>)" unfolding reliable_def by blast
  then show ?thesis by (simp add: save_to_file_def Let_def)
qed

lemma process_link_ok:
  assumes "reliable w" and "\<forall>t. \<exists>x. f t = Inr x"
  shows "\<exists>\<sigma>'. process_link w i f l \<sigma> = (Return (), \<sigma>')
      \<and> scraped_urls \<sigma>' = visited (ipv6_ok w) (scraped_urls \<sigma>) [l]
      \<and> requests \<sigma>' = requests \<sigma> @ map (full_url w i) (fresh (ipv6_ok w) (scraped_urls \<sigma>) [l])
      \<and> length (output_file \<sigma>') = length (output_file \<sigma>) + length (fresh (ipv6_ok w) (scraped_urls \<sigma>) [l])"
proof (cases "normalize_url (ipv6_ok w) l")
  case (Inl e)
  then have "process_link w i f l \<sigma> = (Return (), \<sigma>\<lparr>printed := printed \<sigma> @ [ErrorScraping l e]\<rparr>)"
    by (simp add: process_link_def try_except_def seq_def lift_def print_def)
  with Inl show ?thesis by simp
next
  case (Inr v)
  show ?thesis
  proof (cases "v \<in> scraped_urls \<sigma>")
    case True
    with Inr have "process_link w i f l \<sigma> = (Return (), \<sigma>\<lparr>printed := printed \<sigma> @ [Skipping l]\<rparr>)"
      by (simp add: process_link_def try_except_def seq_def lift_def print_def)
    with Inr True show ?thesis by (simp add: insert_absorb)
  next
    case False
    from assms(1) have sl: "time_sleep w = None" unfolding reliable_def by blast
    define \<sigma>1 where "\<sigma>1 = \<sigma>\<lparr>scraped_urls := insert v (scraped_urls \<sigma>)\<rparr>"
    from scrape_page_ok [OF assms, of l "Some i" \<sigma>1]
    obtain pg pr where sp: "scrape_page w l (Some i) (Some f) \<sigma>1
            = (Return pg, \<sigma>1\<lparr>requests := requests \<sigma>1 @ [full_url w i l], printed := printed \<sigma>1 @ pr\<rparr>)"
      by auto
    define \<sigma>2 where "\<sigma>2 = \<sigma>1\<lparr>requests := requests \<sigma>1 @ [full_url w i l], printed := printed \<sigma>1 @ pr\<rparr>"
    note sv = save_to_file_ok [OF assms(1), of "page_chunk pg" \<sigma>2]
    have "process_link w i f l \<sigma> = (Return (),
        (\<sigma>2\<lparr>saves := saves \<sigma>2 + 1, output_file := output_file \<sigma>2 @ [page_chunk pg]\<rparr>)
          \<lparr>printed := printed \<sigma>2 @ [Scraped l]\<rparr>)"
      using Inr False sl sp sv
      by (simp add: process_link_def try_except_def seq_def lift_def print_def \<sigma>1_def \<sigma>2_def)
    with Inr False show ?thesis by (simp add: \<sigma>1_def \<sigma>2_def)
  qed
qed

lemma fresh_append:
  "fresh ok seen (xs @ ys) = fresh ok seen xs @ fresh ok (visited ok seen xs) ys"
  by (induction xs arbitrary: seen) (auto split: sum.splits simp: insert_absorb)

lemma visited_append:
  "visited ok seen (xs @ ys) = visited ok (visited ok seen xs) ys"
  by (induction xs arbitrary: seen) (auto split: sum.splits)

lemma drain_ok:
  assumes "reliable w" and "\<forall>t. \<exists>x. f t = Inr x"
  shows "\<exists>\<sigma>'. drain w i f ls \<sigma> = (Return (), \<sigma>')
      \<and> scraped_urls \<sigma>' = visited (ipv6_ok w) (scraped_urls \<sigma>) ls
      \<and> requests \<sigma>' = requests \<sigma> @ map (full_url w i) (fresh (ipv6_ok w) (scraped_urls \<sigma>) ls)
      \<and> length (output_file \<sigma>') = length (output_file \<sigma>) + length (fresh (ipv6_ok w) (scraped_urls \<sigma>) ls)"
proof (induction ls arbitrary: \<sigma>)
  case Nil
  show ?case by (simp add: ret_def)
next
  case (Cons l ls)
  from process_link_ok [OF assms, of i l \<sigma>] obtain \<sigma>1 where
    p: "process_link w i f l \<sigma> = (Return (), \<sigma>1)"
    and p1: "scraped_urls \<sigma>1 = visited (ipv6_ok w) (scraped_urls \<sigma>) [l]"
    and p2: "requests \<sigma>1 = requests \<sigma> @ map (full_url w i) (fresh (ipv6_ok w) (scraped_urls \<sigma>) [l])"
    and p3: "length (output_file \<sigma>1) = length (output_file \<sigma>) + length (fresh (ipv6_ok w) (scraped_urls \<sigma>) [l])"
    by blast
  from Cons.IH [of \<sigma>1] obtain \<sigma>2 where
    d: "drain w i f ls \<sigma>1 = (Return (), \<sigma>2)"
    and d1: "scraped_urls \<sigma>2 = visited (ipv6_ok w) (scraped_urls \<sigma>1) ls"
    and d2: "requests \<sigma>2 = requests \<sigma>1 @ map (full_url w i) (fresh (ipv6_ok w) (scraped_urls \<sigma>1) ls)"
    and d3: "length (output_file \<sigma>2) = length (output_file \<sigma>1) + length (fresh (ipv6_ok w) (scraped_urls \<sigma>1) ls)"
    by blast
  have "drain w i f (l # ls) \<sigma> = (Return (), \<sigma>2)"
    by (simp add: seq_def p d)
  moreover have "fresh (ipv6_ok w) (scraped_urls \<sigma>) (l # ls)
      = fresh (ipv6_ok w) (scraped_urls \<sigma>) [l] @ fresh (ipv6_ok w) (scraped_urls \<sigma>1) ls"
    using fresh_append [of "ipv6_ok w" "scraped_urls \<sigma>" "[l]" ls] by (simp add: p1)
  moreover have "visited (ipv6_ok w) (scraped_urls \<sigma>) (l # ls) = visited (ipv6_ok w) (scraped_urls \<sigma>1) ls"
    using visited_append [of "ipv6_ok w" "scraped_urls \<sigma>" "[l]" ls] by (simp add: p1)
  ultimately show ?case
    using d1 d2 d3 p2 p3 by (intro exI [of _ \<sigma>2]) (simp del: fresh.simps visited.simps)
qed

lemma fresh_index: "fresh ok seen ls = first_unvisited ok seen ls"
proof (induction ls arbitrary: seen)
  case Nil
  show ?case by (simp add: first_unvisited_def)
next
  case (Cons x xs)
  have upt: "[0..<length (x # xs)] = 0 # map Suc [0..<length xs]"
    by (simp add: upt_conv_Cons map_Suc_upt del: upt_Suc)
  show ?case
  proof (cases "normalize_url ok x")
    case (Inl e)
    then show ?thesis
      unfolding first_unvisited_def upt
      by (auto simp add: Cons.IH first_unvisited_def filter_map o_def split: sum.splits
            intro!: arg_cong[where f="map ((!) xs)"] filter_cong)
  next
    case (Inr v)
    then show ?thesis
      unfolding first_unvisited_def upt
      by (auto simp add: Cons.IH first_unvisited_def filter_map o_def split: sum.splits
            intro!: arg_cong[where f="map ((!) xs)"] filter_cong)
  qed
qed


lemma build_links_filter:
  "build_links w i scraped raw = Inr links \<Longrightarrow>
     \<exists>fulls. map (\<lambda>l. if \<not> is_http l then urljoin w i l else Inr l) raw = map Inr fulls
       \<and> (\<forall>fl \<in> set fulls. \<exists>v. normalize_url (ipv6_ok w) fl = Inr v)
       \<and> links = filter (\<lambda>fl. normalize_url (ipv6_ok w) fl \<notin> Inr ` scraped) fulls"
proof (induction raw arbitrary: links)
  case Nil
  then show ?case by simp
next
  case (Cons l raw)
  from Cons.prems obtain fl v rest where
    a: "(if \<not> is_http l then urljoin w i l else Inr l) = Inr fl"
    and b: "normalize_url (ipv6_ok w) fl = Inr v"
    and c: "build_links w i scraped raw = Inr rest"
    and d: "links = (if v \<notin> scraped then fl # rest else rest)"
    by (auto simp: and_then_def split: sum.splits)
  from Cons.IH [OF c] obtain fulls where
    e: "map (\<lambda>l. if \<not> is_http l then urljoin w i l else Inr l) raw = map Inr fulls"
    and f: "\<forall>fl \<in> set fulls. \<exists>v. normalize_url (ipv6_ok w) fl = Inr v"
    and g: "rest = filter (\<lambda>fl. normalize_url (ipv6_ok w) fl \<notin> Inr ` scraped) fulls"
    by blast
  have "map (\<lambda>l. if \<not> is_http l then urljoin w i l else Inr l) (l # raw) = map Inr (fl # fulls)"
    using a e by simp
  moreover have "\<forall>x \<in> set (fl # fulls). \<exists>v. normalize_url (ipv6_ok w) x = Inr v"
    using b f by simp
  moreover have "links = filter (\<lambda>fl. normalize_url (ipv6_ok w) fl \<notin> Inr ` scraped) (fl # fulls)"
    using b d g by auto
  ultimately show ?case by blast
qed

lemma get_extractors_webdoc:
  "get_extractors soup = Some (extract_main_content, extract_navigation_links)"
  by (simp add: get_extractors_def detect_doc_type_def EXTRACTORS_def)

lemma extract_main_content_returns: "\<forall>t. \<exists>x. extract_main_content t = Inr x"
  using extract_main_content_cases by blast

lemma save_first_ok:
  assumes "reliable w"
  shows "save_to_file w chunk False \<sigma>
     = (Return (), \<sigma>\<lparr>saves := saves \<sigma> + 1, output_file := [chunk]\<rparr>)"
proof -
  from assms have "file_write w (saves \<sigma>)" unfolding reliable_def by blast
  then show ?thesis by (simp add: save_to_file_def Let_def)
qed

lemma main_reliable:
  assumes rel: "reliable w"
    and seed: "normalize_url (ipv6_ok w) (args_url a) = Inr seed"
    and parsed: "urlparse (ipv6_ok w) seed = Inr parsed_url"
    and first: "requests_get w 0 seed = Response status_code body"
    and links: "build_links w seed {seed} (extract_navigation_links (html_parser w body)) = Inr links"
  shows "\<exists>\<sigma>'. main w a initial_state = (Return (), \<sigma>')
      \<and> requests \<sigma>' = [seed, seed] @ map (full_url w seed)
           (fresh (ipv6_ok w) {seed}
              (slice_to (case args_max_pages a of None \<Rightarrow> int (length links)
                         | Some m \<Rightarrow> if m = 0 then int (length links) else m) links))
      \<and> length (output_file \<sigma>') = 1 + length
           (fresh (ipv6_ok w) {seed}
              (slice_to (case args_max_pages a of None \<Rightarrow> int (length links)
                         | Some m \<Rightarrow> if m = 0 then int (length links) else m) links))"
proof -
  define ls where "ls = slice_to (case args_max_pages a of None \<Rightarrow> int (length links)
                         | Some m \<Rightarrow> if m = 0 then int (length links) else m) links"
  define \<sigma>1 where "\<sigma>1 = initial_state\<lparr>scraped_urls := insert seed (scraped_urls initial_state)\<rparr>"
  define \<sigma>2 where "\<sigma>2 = \<sigma>1\<lparr>requests := requests \<sigma>1 @ [seed]\<rparr>"
  from rel have "case requests_get w 0 seed of
               Response status_code body \<Rightarrow> \<not> (400 \<le> status_code \<and> status_code < 600)
             | RequestException \<Rightarrow> False"
    unfolding reliable_def by blast
  with first have st: "\<not> (400 \<le> status_code \<and> status_code < 600)" by simp
  have fe: "fetch_url w seed \<sigma>1 = (Return body, \<sigma>2)"
    using first st by (simp add: fetch_url_def Let_def \<sigma>1_def \<sigma>2_def initial_state_def)
  have sc2: "scraped_urls \<sigma>2 = {seed}"
    by (simp add: \<sigma>2_def \<sigma>1_def initial_state_def)
  from scrape_page_ok [OF rel extract_main_content_returns, of seed None \<sigma>2]
  obtain pg pr where sp: "scrape_page w seed None (Some extract_main_content) \<sigma>2
            = (Return pg, \<sigma>2\<lparr>requests := requests \<sigma>2 @ [seed], printed := printed \<sigma>2 @ pr\<rparr>)"
    by (auto simp: full_url_def)
  define \<sigma>3 where "\<sigma>3 = \<sigma>2\<lparr>requests := requests \<sigma>2 @ [seed], printed := printed \<sigma>2 @ pr\<rparr>"
  define chunk where "chunk = first_chunk w
               (case detect_doc_type (html_parser w body) of
                  None \<Rightarrow> ''generic''
                | Some doc_type \<Rightarrow> if doc_type = [] then ''generic'' else doc_type) pg"
  define \<sigma>4 where "\<sigma>4 = \<sigma>3\<lparr>saves := saves \<sigma>3 + 1, output_file := [chunk]\<rparr>"
  have sv: "save_to_file w chunk False \<sigma>3 = (Return (), \<sigma>4)"
    unfolding \<sigma>4_def by (rule save_first_ok [OF rel])
  define \<sigma>5 where "\<sigma>5 = \<sigma>4\<lparr>printed := printed \<sigma>4 @ [Scraped seed]\<rparr>"
  from drain_ok [OF rel extract_main_content_returns, of seed ls \<sigma>5]
  obtain \<sigma>' where d: "drain w seed extract_main_content ls \<sigma>5 = (Return (), \<sigma>')"
    and d2: "requests \<sigma>' = requests \<sigma>5 @ map (full_url w seed) (fresh (ipv6_ok w) (scraped_urls \<sigma>5) ls)"
    and d3: "length (output_file \<sigma>') = length (output_file \<sigma>5) + length (fresh (ipv6_ok w) (scraped_urls \<sigma>5) ls)"
    by blast
  have s5: "scraped_urls \<sigma>5 = {seed}" "requests \<sigma>5 = [seed, seed]" "length (output_file \<sigma>5) = 1"
    by (simp_all add: \<sigma>5_def \<sigma>4_def \<sigma>3_def \<sigma>2_def \<sigma>1_def initial_state_def)
  have gp: "get_output_path w seed = Inr (replace ''.'' ''_'' (netloc parsed_url), ''api_'' @ today w @ ''.md'')"
    by (simp add: get_output_path_def and_then_def parsed)
  have "main w a initial_state = (Return (), \<sigma>')"
    unfolding main_def
    by (simp add: seq_def lift_def ret_def print_def seed \<sigma>1_def [symmetric] fe
          get_extractors_webdoc sc2 links sp \<sigma>3_def [symmetric] gp chunk_def [symmetric] sv
          \<sigma>5_def [symmetric] ls_def [symmetric] d)
  with d2 d3 s5 show ?thesis
    unfolding ls_def [symmetric] by simp
qed

lemma seq_Return:
  "seq m g \<sigma> = (Return y, \<sigma>') \<longleftrightarrow> (\<exists>x \<sigma>1. m \<sigma> = (Return x, \<sigma>1) \<and> g x \<sigma>1 = (Return y, \<sigma>'))"
  by (auto simp: seq_def split: prod.splits outcome.splits)

lemma scrape_page_content:
  assumes "scrape_page w u b x \<sigma> = (Return pg, \<sigma>')"
  shows "\<exists>fragment. page_content pg =
     (case convert_local w (''<html><body>'' @ fragment @ ''</body></html>'') of
        Inl e \<Rightarrow> ''<html><body>'' @ fragment @ ''</body></html>''
      | Inr md \<Rightarrow> replace ''<s>'' (CHR 0x5C # ''<s>'') (replace ''<S>'' (CHR 0x5C # ''<S>'') md))"
proof -
  from assms obtain fragment c \<sigma>5 \<sigma>6 where
    cs: "convert_step w (''<html><body>'' @ fragment @ ''</body></html>'') \<sigma>5 = (Return c, \<sigma>6)"
    and pg: "page_content pg = c"
    unfolding scrape_page_def seq_Return by (auto simp: ret_def)
  from convert_step_returns [of w "''<html><body>'' @ fragment @ ''</body></html>''" \<sigma>5] cs
  have "c = (case convert_local w (''<html><body>'' @ fragment @ ''</body></html>'') of
        Inl e \<Rightarrow> ''<html><body>'' @ fragment @ ''</body></html>''
      | Inr md \<Rightarrow> replace ''<s>'' (CHR 0x5C # ''<s>'') (replace ''<S>'' (CHR 0x5C # ''<S>'') md))"
    by auto
  with pg show ?thesis by blast
qed

text \<open>
  C4: the conversion step returns for every input and raises nothing. When the converter
  raises, the content is the wrapped markup it was given; when the converter returns, the
  content is its output with \<open><S>\<close> and then \<open><s>\<close> replaced by the same text behind a
  backslash. The content of a page that \<open>scrape_page\<close> returns is the result of this step on
  the wrapped fragment.
\<close>

theorem convert_step_contract:
  "(\<exists>c pr. convert_step w h \<sigma> = (Return c, \<sigma>\<lparr>printed := printed \<sigma> @ pr\<rparr>)
      \<and> (\<forall>e. convert_local w h = Inl e \<longrightarrow> c = h)
      \<and> (\<forall>md. convert_local w h = Inr md \<longrightarrow>
            c = replace ''<s>'' (CHR 0x5C # ''<s>'') (replace ''<S>'' (CHR 0x5C # ''<S>'') md)))
   \<and> (scrape_page w u b x \<sigma> = (Return pg, \<sigma>') \<longrightarrow>
        (\<exists>fragment. page_content pg =
           (case convert_local w (''<html><body>'' @ fragment @ ''</body></html>'') of
              Inl e \<Rightarrow> ''<html><body>'' @ fragment @ ''</body></html>''
            | Inr md \<Rightarrow> replace ''<s>'' (CHR 0x5C # ''<s>'') (replace ''<S>'' (CHR 0x5C # ''<S>'') md))))"
proof (intro conjI impI)
  from convert_step_returns [of w h \<sigma>] obtain c pr where
    a: "convert_step w h \<sigma> = (Return c, \<sigma>\<lparr>printed := printed \<sigma> @ pr\<rparr>)"
    and b: "c = (case convert_local w h of Inl e \<Rightarrow> h
            | Inr md \<Rightarrow> replace ''<s>'' (CHR 0x5C # ''<s>'') (replace ''<S>'' (CHR 0x5C # ''<S>'') md))"
    by blast
  from b have "\<forall>e. convert_local w h = Inl e \<longrightarrow> c = h" by simp
  moreover from b have "\<forall>md. convert_local w h = Inr md \<longrightarrow>
      c = replace ''<s>'' (CHR 0x5C # ''<s>'') (replace ''<S>'' (CHR 0x5C # ''<S>'') md)" by simp
  ultimately show "\<exists>c pr. convert_step w h \<sigma> = (Return c, \<sigma>\<lparr>printed := printed \<sigma> @ pr\<rparr>)
      \<and> (\<forall>e. convert_local w h = Inl e \<longrightarrow> c = h)
      \<and> (\<forall>md. convert_local w h = Inr md \<longrightarrow>
            c = replace ''<s>'' (CHR 0x5C # ''<s>'') (replace ''<S>'' (CHR 0x5C # ''<S>'') md))"
    using a by blast
next
  assume "scrape_page w u b x \<sigma> = (Return pg, \<sigma>')"
  then show "\<exists>fragment. page_content pg =
           (case convert_local w (''<html><body>'' @ fragment @ ''</body></html>'') of
              Inl e \<Rightarrow> ''<html><body>'' @ fragment @ ''</body></html>''
            | Inr md \<Rightarrow> replace ''<s>'' (CHR 0x5C # ''<s>'') (replace ''<S>'' (CHR 0x5C # ''<S>'') md))"
    by (rule scrape_page_content)
qed

theorem convert_step_contract_witness:
  "convert_local (example_world []) ''<html><body>x</body></html>'' = Inl ValueError
   \<and> fst (convert_step (example_world []) ''<html><body>x</body></html>'' initial_state)
       = Return ''<html><body>x</body></html>''
   \<and> convert_local (example_world []) ''<html><body><p>page</p></body></html>'' = Inr ''page <S>''
   \<and> fst (convert_step (example_world []) ''<html><body><p>page</p></body></html>'' initial_state)
       = Return (''page '' @ [CHR 0x5C] @ ''<S>'')
   \<and> page_content (case fst (scrape_page (example_world []) ''http://example.com/a'' None
         (Some extract_main_content) initial_state) of Return pg \<Rightarrow> pg)
       = ''page '' @ [CHR 0x5C] @ ''<S>''"
proof -
  have a: "convert_local (example_world []) ''<html><body>x</body></html>'' = Inl ValueError"
    by code_simp
  have b: "convert_local (example_world []) ''<html><body><p>page</p></body></html>'' = Inr ''page <S>''"
    by code_simp
  have c: "replace ''<s>'' (CHR 0x5C # ''<s>'') (replace ''<S>'' (CHR 0x5C # ''<S>'') ''page <S>'')
      = ''page '' @ [CHR 0x5C] @ ''<S>''"
    by code_simp
  have d: "page_content (case fst (scrape_page (example_world []) ''http://example.com/a'' None
         (Some extract_main_content) initial_state) of Return pg \<Rightarrow> pg)
       = ''page '' @ [CHR 0x5C] @ ''<S>''"
    by code_simp
  from convert_step_contract [of "example_world []" "''<html><body>x</body></html>''" initial_state,
      THEN conjunct1]
  obtain c1 pr1 where "convert_step (example_world []) ''<html><body>x</body></html>'' initial_state
        = (Return c1, initial_state\<lparr>printed := printed initial_state @ pr1\<rparr>)"
    and "\<forall>e. convert_local (example_world []) ''<html><body>x</body></html>'' = Inl e
        \<longrightarrow> c1 = ''<html><body>x</body></html>''"
    by blast
  with a have e: "fst (convert_step (example_world []) ''<html><body>x</body></html>'' initial_state)
       = Return ''<html><body>x</body></html>''"
    by simp
  from convert_step_contract [of "example_world []" "''<html><body><p>page</p></body></html>''"
      initial_state, THEN conjunct1]
  obtain c2 pr2 where "convert_step (example_world []) ''<html><body><p>page</p></body></html>'' initial_state
        = (Return c2, initial_state\<lparr>printed := printed initial_state @ pr2\<rparr>)"
    and "\<forall>md. convert_local (example_world []) ''<html><body><p>page</p></body></html>'' = Inr md
        \<longrightarrow> c2 = replace ''<s>'' (CHR 0x5C # ''<s>'') (replace ''<S>'' (CHR 0x5C # ''<S>'') md)"
    by blast
  with b c have f: "fst (convert_step (example_world []) ''<html><body><p>page</p></body></html>'' initial_state)
       = Return (''page '' @ [CHR 0x5C] @ ''<S>'')"
    by simp
  from a b d e f show ?thesis by blast
qed

text \<open>
  C1 does not hold of the code: \<open>fetch_url\<close> ends the program on every failed request, and
  the handler of the loop does not catch \<open>SystemExit\<close>. On a seed page with the links
  \<open>a\<close> and \<open>b\<close> where the request for \<open>a\<close> fails, the run ends with exit status 1 after
  that request, and \<open>b\<close> is never requested.
\<close>

theorem main_exits_on_failed_link:
  "fst (main failing_world \<lparr>args_url = ''http://example.com'', args_max_pages = None\<rparr> initial_state)
      = SystemExit 1
   \<and> requests (snd (main failing_world \<lparr>args_url = ''http://example.com'', args_max_pages = None\<rparr> initial_state))
      = [''http://example.com'', ''http://example.com'', ''http://example.com/a'']
   \<and> printed (snd (main failing_world \<lparr>args_url = ''http://example.com'', args_max_pages = None\<rparr> initial_state))
      = [ErrorConverting ValueError, Scraped ''http://example.com'', ErrorFetching ''http://example.com/a'']
   \<and> length (output_file (snd (main failing_world \<lparr>args_url = ''http://example.com'', args_max_pages = None\<rparr> initial_state))) = 1"
  by code_simp

text \<open>
  C2 does not hold of the code: the seed is requested once by \<open>main\<close> itself and once more
  by \<open>scrape_page\<close>, which \<open>main\<close> calls on the seed without a look at \<open>scraped_urls\<close>.
\<close>

theorem main_requests_seed_twice:
  "fst (main (example_world [''http://example.com/a'', ''http://example.com/b''])
          \<lparr>args_url = ''http://example.com/'', args_max_pages = None\<rparr> initial_state) = Return ()
   \<and> requests (snd (main (example_world [''http://example.com/a'', ''http://example.com/b''])
          \<lparr>args_url = ''http://example.com/'', args_max_pages = None\<rparr> initial_state))
      = [''http://example.com'', ''http://example.com'', ''http://example.com/a'', ''http://example.com/b'']"
  by code_simp




text \<open>
  C10: the list \<open>links\<close> is the list of the joined raw links without those whose normal form
  is in \<open>scraped_urls\<close>, which holds the seed alone while the list is built, so two links of
  the same normal form both stay. A run of the last loop in which every request, pause and
  write succeeds requests, of the links it is given, exactly those whose normal form is
  defined, was not visited before the loop and is not the normal form of an earlier link, in
  their order. In \<open>main\<close> the loop is given the links cut at the cap, so a skipped link has
  used one of the places.
\<close>

theorem drain_first_occurrence_only:
  "(build_links w i scraped raw = Inr links \<longrightarrow>
      (\<exists>fulls. map (\<lambda>l. if \<not> is_http l then urljoin w i l else Inr l) raw = map Inr fulls
         \<and> links = filter (\<lambda>fl. normalize_url (ipv6_ok w) fl \<notin> Inr ` scraped) fulls))
   \<and> (reliable w \<and> (\<forall>t. \<exists>x. f t = Inr x) \<longrightarrow>
      (\<exists>\<sigma>'. drain w i f ls \<sigma> = (Return (), \<sigma>')
         \<and> requests \<sigma>' = requests \<sigma>
              @ map (full_url w i) (first_unvisited (ipv6_ok w) (scraped_urls \<sigma>) ls)))
   \<and> (reliable w \<and> normalize_url (ipv6_ok w) (args_url a) = Inr seed
        \<and> urlparse (ipv6_ok w) seed = Inr parsed_url
        \<and> requests_get w 0 seed = Response status_code body
        \<and> build_links w seed {seed} (extract_navigation_links (html_parser w body)) = Inr found
      \<longrightarrow> (\<exists>\<sigma>'. main w a initial_state = (Return (), \<sigma>')
             \<and> requests \<sigma>' = [seed, seed] @ map (full_url w seed)
                  (first_unvisited (ipv6_ok w) {seed}
                     (slice_to (case args_max_pages a of None \<Rightarrow> int (length found)
                                | Some m \<Rightarrow> if m = 0 then int (length found) else m) found))))"
proof (intro conjI impI)
  assume "build_links w i scraped raw = Inr links"
  from build_links_filter [OF this]
  show "\<exists>fulls. map (\<lambda>l. if \<not> is_http l then urljoin w i l else Inr l) raw = map Inr fulls
         \<and> links = filter (\<lambda>fl. normalize_url (ipv6_ok w) fl \<notin> Inr ` scraped) fulls"
    by blast
next
  assume h: "reliable w \<and> (\<forall>t. \<exists>x. f t = Inr x)"
  then have h1: "reliable w" and h2: "\<forall>t. \<exists>x. f t = Inr x" by blast+
  from drain_ok [OF h1 h2, of i ls \<sigma>]
  show "\<exists>\<sigma>'. drain w i f ls \<sigma> = (Return (), \<sigma>')
         \<and> requests \<sigma>' = requests \<sigma>
              @ map (full_url w i) (first_unvisited (ipv6_ok w) (scraped_urls \<sigma>) ls)"
    unfolding fresh_index by blast
next
  assume h: "reliable w \<and> normalize_url (ipv6_ok w) (args_url a) = Inr seed
        \<and> urlparse (ipv6_ok w) seed = Inr parsed_url
        \<and> requests_get w 0 seed = Response status_code body
        \<and> build_links w seed {seed} (extract_navigation_links (html_parser w body)) = Inr found"
  then have h1: "reliable w" and h2: "normalize_url (ipv6_ok w) (args_url a) = Inr seed"
    and h3: "urlparse (ipv6_ok w) seed = Inr parsed_url"
    and h4: "requests_get w 0 seed = Response status_code body"
    and h5: "build_links w seed {seed} (extract_navigation_links (html_parser w body)) = Inr found"
    by blast+
  from main_reliable [OF h1 h2 h3 h4 h5]
  show "\<exists>\<sigma>'. main w a initial_state = (Return (), \<sigma>')
             \<and> requests \<sigma>' = [seed, seed] @ map (full_url w seed)
                  (first_unvisited (ipv6_ok w) {seed}
                     (slice_to (case args_max_pages a of None \<Rightarrow> int (length found)
                                | Some m \<Rightarrow> if m = 0 then int (length found) else m) found))"
    unfolding fresh_index by blast
qed

theorem drain_first_occurrence_only_witness:
  "build_links (example_world [''http://example.com/a/'', ''http://example.com/a'', ''http://example.com/b''])
      ''http://example.com'' {''http://example.com''}
      [''http://example.com/a/'', ''http://example.com/a'', ''http://example.com/b'']
     = Inr [''http://example.com/a/'', ''http://example.com/a'', ''http://example.com/b'']
   \<and> normalize_url (\<lambda>h. True) ''http://example.com/a/'' = normalize_url (\<lambda>h. True) ''http://example.com/a''
   \<and> requests (snd (main (example_world [''http://example.com/a/'', ''http://example.com/a'', ''http://example.com/b''])
          \<lparr>args_url = ''http://example.com'', args_max_pages = Some 2\<rparr> initial_state))
       = [''http://example.com'', ''http://example.com'', ''http://example.com/a/'']"
proof -
  define w where "w = example_world [''http://example.com/a/'', ''http://example.com/a'', ''http://example.com/b'']"
  define a where "a = \<lparr>args_url = ''http://example.com'', args_max_pages = Some (2 :: int)\<rparr>"
  have h1: "reliable w"
    by (simp add: w_def reliable_def example_world_def)
  have h2: "normalize_url (ipv6_ok w) (args_url a) = Inr ''http://example.com''"
    unfolding w_def a_def by code_simp
  have h3: "urlparse (ipv6_ok w) ''http://example.com''
      = Inr \<lparr>scheme = ''http'', netloc = ''example.com'', path = [], params = [], query = [],
             fragment = []\<rparr>"
    unfolding w_def by code_simp
  have h4: "requests_get w 0 ''http://example.com'' = Response 200 ''seed''"
    unfolding w_def by code_simp
  have h5: "build_links w ''http://example.com'' {''http://example.com''}
      (extract_navigation_links (html_parser w ''seed''))
      = Inr [''http://example.com/a/'', ''http://example.com/a'', ''http://example.com/b'']"
    unfolding w_def by code_simp
  have h6: "build_links w ''http://example.com'' {''http://example.com''}
      [''http://example.com/a/'', ''http://example.com/a'', ''http://example.com/b'']
     = Inr [''http://example.com/a/'', ''http://example.com/a'', ''http://example.com/b'']"
    unfolding w_def by code_simp
  have h7: "normalize_url (\<lambda>h. True) ''http://example.com/a/'' = normalize_url (\<lambda>h. True) ''http://example.com/a''"
    by code_simp
  have h8: "map (full_url w ''http://example.com'')
       (first_unvisited (ipv6_ok w) {''http://example.com''}
          (slice_to (case args_max_pages a of None \<Rightarrow> int (length [''http://example.com/a/'', ''http://example.com/a'', ''http://example.com/b''])
                     | Some m \<Rightarrow> if m = 0 then int (length [''http://example.com/a/'', ''http://example.com/a'', ''http://example.com/b'']) else m)
             [''http://example.com/a/'', ''http://example.com/a'', ''http://example.com/b'']))
     = [''http://example.com/a/'']"
    unfolding w_def a_def by code_simp
  from drain_first_occurrence_only [of w _ _ _ _ _ _ _ a "''http://example.com''" _ 200 "''seed''"
      "[''http://example.com/a/'', ''http://example.com/a'', ''http://example.com/b'']"]
    h1 h2 h3 h4 h5
  obtain \<sigma>' where "main w a initial_state = (Return (), \<sigma>')"
    and "requests \<sigma>' = [''http://example.com'', ''http://example.com''] @ map (full_url w ''http://example.com'')
       (first_unvisited (ipv6_ok w) {''http://example.com''}
          (slice_to (case args_max_pages a of None \<Rightarrow> int (length [''http://example.com/a/'', ''http://example.com/a'', ''http://example.com/b''])
                     | Some m \<Rightarrow> if m = 0 then int (length [''http://example.com/a/'', ''http://example.com/a'', ''http://example.com/b'']) else m)
             [''http://example.com/a/'', ''http://example.com/a'', ''http://example.com/b'']))"
    by blast
  with h8 have "requests (snd (main w a initial_state))
       = [''http://example.com'', ''http://example.com'', ''http://example.com/a/'']"
    by simp
  with h6 h7 show ?thesis
    unfolding w_def a_def by blast
qed

end
